theory Spec2Isabelle
  imports Main
begin

section \<open>Schema (db/tables.ts)\<close>

text \<open>
  The four tables of the textbook scanner. A column declared \<open>optional\<close> holds an
  \<open>option\<close> (\<open>None\<close> is SQL NULL); a JSON column holds an uninterpreted structured
  value (a stored JSON null is kept apart from an empty column); a date is a clock
  reading in milliseconds.
\<close>

type_synonym date = nat

datatype json =
    JNull
  | JBool bool
  | JNum int
  | JStr string
  | JArr "json list"
  | JObj "(string \<times> json) list"

datatype source_type = Pdf | Image_set | Other_source

datatype highlight_type = Key_point | Question | Definition | Formula | Other_highlight

datatype job_type = Ocr | Highlight_extraction | Full_pipeline | Other_job

datatype job_status = Pending | Completed | Failed

record TextbookDocument =
  d_id :: int
  d_ownerId :: string
  d_title :: string
  d_description :: "string option"
  d_subject :: "string option"
  d_gradeLevel :: "string option"
  d_board :: "string option"
  d_sourceType :: source_type
  d_sourceMeta :: "json option"
  d_createdAt :: date
  d_updatedAt :: date

record TextbookPage =
  p_id :: int
  p_documentId :: int
  p_pageNumber :: int
  p_imageUrl :: "string option"
  p_ocrText :: "string option"
  p_ocrBlocks :: "json option"
  p_createdAt :: date
  p_updatedAt :: date

record TextbookHighlight =
  h_id :: int
  h_documentId :: int
  h_pageId :: "int option"
  h_highlightType :: highlight_type
  h_content :: string
  h_meta :: "json option"
  h_createdAt :: date

record ScanJob =
  j_id :: int
  j_documentId :: "int option"
  j_pageId :: "int option"
  j_userId :: "string option"
  j_jobType :: job_type
  j_input :: "json option"
  j_output :: "json option"
  j_status :: job_status
  j_createdAt :: date

text \<open>The \<open>default:\<close> entries of the column declarations (a date column defaults to NOW).\<close>

definition TextbookDocuments_sourceType_default :: source_type where
  "TextbookDocuments_sourceType_default = Image_set"

definition TextbookPages_pageNumber_default :: int where
  "TextbookPages_pageNumber_default = 1"

definition TextbookHighlights_highlightType_default :: highlight_type where
  "TextbookHighlights_highlightType_default = Key_point"

definition ScanJobs_jobType_default :: job_type where
  "ScanJobs_jobType_default = Full_pipeline"

definition ScanJobs_status_default :: job_status where
  "ScanJobs_status_default = Completed"

text \<open>
  The database: the four tables, each the list of its rows in storage order, and the
  auto-increment counter of each table (the largest key it has handed out).
\<close>

record store =
  TextbookDocuments :: "TextbookDocument list"
  TextbookPages :: "TextbookPage list"
  TextbookHighlights :: "TextbookHighlight list"
  ScanJobs :: "ScanJob list"
  seq_TextbookDocuments :: int
  seq_TextbookPages :: int
  seq_TextbookHighlights :: int
  seq_ScanJobs :: int

text \<open>
  The \<open>references\<close> entries of the column declarations. A reference column holds NULL
  (when the column is optional) or the key of a row of the referenced table:
  TextbookPages.documentId, TextbookHighlights.documentId and ScanJobs.documentId
  reference TextbookDocuments.id; TextbookHighlights.pageId and ScanJobs.pageId
  reference TextbookPages.id.
\<close>

definition refers_to :: "int list \<Rightarrow> int option \<Rightarrow> bool" where
  "refers_to keys v = (case v of None \<Rightarrow> True | Some i \<Rightarrow> i \<in> set keys)"

definition page_references :: "store \<Rightarrow> TextbookPage \<Rightarrow> bool" where
  "page_references s p = refers_to (map d_id (TextbookDocuments s)) (Some (p_documentId p))"

definition highlight_references :: "store \<Rightarrow> TextbookHighlight \<Rightarrow> bool" where
  "highlight_references s h =
     (refers_to (map d_id (TextbookDocuments s)) (Some (h_documentId h)) \<and>
      refers_to (map p_id (TextbookPages s)) (h_pageId h))"

definition job_references :: "store \<Rightarrow> ScanJob \<Rightarrow> bool" where
  "job_references s j =
     (refers_to (map d_id (TextbookDocuments s)) (j_documentId j) \<and>
      refers_to (map p_id (TextbookPages s)) (j_pageId j))"

text \<open>A page that a highlight or a scan job references.\<close>

definition page_referenced :: "store \<Rightarrow> TextbookPage \<Rightarrow> bool" where
  "page_referenced s p =
     (list_ex (\<lambda>h. h_pageId h = Some (p_id p)) (TextbookHighlights s) \<or>
      list_ex (\<lambda>j. j_pageId j = Some (p_id p)) (ScanJobs s))"

section \<open>Persistence gateway\<close>

text \<open>
  The persistence gateway (the \<open>astro:db\<close> query builder and the database behind it) is
  an external collaborator of the repository; the handlers use its insert, select, update
  and delete with equality filters. What the handlers rely on: an auto-increment key is
  one more than the largest key the table holds or has ever handed out; \<open>returning\<close>
  yields the rows written or removed; an insert stores NULL for an optional column whose
  value is undefined and the declared default for a defaulted column that is left out;
  \<open>update ... set\<close> writes the keys of its object into every matching row and ignores
  a key whose value is undefined; \<open>delete\<close> removes every matching row. The database
  enforces the declared references: an insert or update that would store a row whose
  reference names no row, and a delete of a row that another row references, is refused
  as a whole and changes nothing.
\<close>

definition next_id :: "int list \<Rightarrow> int \<Rightarrow> int" where
  "next_id ids seq = fold max ids seq + 1"

definition db_select :: "('r \<Rightarrow> bool) \<Rightarrow> 'r list \<Rightarrow> 'r list" where
  "db_select P rows = filter P rows"

definition limit :: "nat \<Rightarrow> 'r list \<Rightarrow> 'r list" where
  "limit n rows = take n rows"

definition db_update :: "('r \<Rightarrow> bool) \<Rightarrow> ('r \<Rightarrow> 'r) \<Rightarrow> 'r list \<Rightarrow> 'r list \<times> 'r list" where
  "db_update P f rows = (map f (filter P rows), map (\<lambda>r. if P r then f r else r) rows)"

definition db_delete :: "('r \<Rightarrow> bool) \<Rightarrow> 'r list \<Rightarrow> 'r list \<times> 'r list" where
  "db_delete P rows = (filter P rows, filter (\<lambda>r. \<not> P r) rows)"

text \<open>The array destructuring \<open>const [x] = rows\<close>: the first row, or undefined.\<close>

definition first :: "'r list \<Rightarrow> 'r option" where
  "first rows = (case rows of [] \<Rightarrow> None | r # _ \<Rightarrow> Some r)"

definition or_default :: "'a option \<Rightarrow> 'a \<Rightarrow> 'a" where
  "or_default v d = (case v of None \<Rightarrow> d | Some x \<Rightarrow> x)"

text \<open>An optional column under \<open>set\<close>: an undefined value leaves what is stored.\<close>

definition keep_or_overwrite :: "'a option \<Rightarrow> 'a option \<Rightarrow> 'a option" where
  "keep_or_overwrite supplied stored = (case supplied of None \<Rightarrow> stored | Some v \<Rightarrow> Some v)"

record TextbookDocument_values =
  dv_ownerId :: string
  dv_title :: string
  dv_description :: "string option"
  dv_subject :: "string option"
  dv_gradeLevel :: "string option"
  dv_board :: "string option"
  dv_sourceType :: "source_type option"
  dv_sourceMeta :: "json option"
  dv_createdAt :: "date option"
  dv_updatedAt :: "date option"

record TextbookPage_values =
  pv_documentId :: int
  pv_pageNumber :: "int option"
  pv_imageUrl :: "string option"
  pv_ocrText :: "string option"
  pv_ocrBlocks :: "json option"
  pv_createdAt :: "date option"
  pv_updatedAt :: "date option"

record TextbookHighlight_values =
  hv_documentId :: int
  hv_pageId :: "int option"
  hv_highlightType :: "highlight_type option"
  hv_content :: string
  hv_meta :: "json option"
  hv_createdAt :: "date option"

record ScanJob_values =
  jv_documentId :: "int option"
  jv_pageId :: "int option"
  jv_userId :: "string option"
  jv_jobType :: "job_type option"
  jv_input :: "json option"
  jv_output :: "json option"
  jv_status :: "job_status option"
  jv_createdAt :: "date option"

definition document_row :: "date \<Rightarrow> int \<Rightarrow> TextbookDocument_values \<Rightarrow> TextbookDocument" where
  "document_row now i v =
     \<lparr>d_id = i, d_ownerId = dv_ownerId v, d_title = dv_title v,
      d_description = dv_description v, d_subject = dv_subject v,
      d_gradeLevel = dv_gradeLevel v, d_board = dv_board v,
      d_sourceType = or_default (dv_sourceType v) TextbookDocuments_sourceType_default,
      d_sourceMeta = dv_sourceMeta v,
      d_createdAt = or_default (dv_createdAt v) now,
      d_updatedAt = or_default (dv_updatedAt v) now\<rparr>"

definition page_row :: "date \<Rightarrow> int \<Rightarrow> TextbookPage_values \<Rightarrow> TextbookPage" where
  "page_row now i v =
     \<lparr>p_id = i, p_documentId = pv_documentId v,
      p_pageNumber = or_default (pv_pageNumber v) TextbookPages_pageNumber_default,
      p_imageUrl = pv_imageUrl v, p_ocrText = pv_ocrText v, p_ocrBlocks = pv_ocrBlocks v,
      p_createdAt = or_default (pv_createdAt v) now,
      p_updatedAt = or_default (pv_updatedAt v) now\<rparr>"

definition highlight_row :: "date \<Rightarrow> int \<Rightarrow> TextbookHighlight_values \<Rightarrow> TextbookHighlight" where
  "highlight_row now i v =
     \<lparr>h_id = i, h_documentId = hv_documentId v, h_pageId = hv_pageId v,
      h_highlightType =
        or_default (hv_highlightType v) TextbookHighlights_highlightType_default,
      h_content = hv_content v, h_meta = hv_meta v,
      h_createdAt = or_default (hv_createdAt v) now\<rparr>"

definition job_row :: "date \<Rightarrow> int \<Rightarrow> ScanJob_values \<Rightarrow> ScanJob" where
  "job_row now i v =
     \<lparr>j_id = i, j_documentId = jv_documentId v, j_pageId = jv_pageId v,
      j_userId = jv_userId v,
      j_jobType = or_default (jv_jobType v) ScanJobs_jobType_default,
      j_input = jv_input v, j_output = jv_output v,
      j_status = or_default (jv_status v) ScanJobs_status_default,
      j_createdAt = or_default (jv_createdAt v) now\<rparr>"

definition insert_TextbookDocuments ::
    "date \<Rightarrow> TextbookDocument_values \<Rightarrow> store \<Rightarrow> TextbookDocument list \<times> store" where
  "insert_TextbookDocuments now v s =
     (let i = next_id (map d_id (TextbookDocuments s)) (seq_TextbookDocuments s);
          row = document_row now i v
      in ([row], s\<lparr>TextbookDocuments := TextbookDocuments s @ [row],
                   seq_TextbookDocuments := i\<rparr>))"

text \<open>
  The tables with reference columns: \<open>None\<close> is the refusal of the statement by the
  database.
\<close>

definition insert_TextbookPages ::
    "date \<Rightarrow> TextbookPage_values \<Rightarrow> store \<Rightarrow> (TextbookPage list \<times> store) option" where
  "insert_TextbookPages now v s =
     (let i = next_id (map p_id (TextbookPages s)) (seq_TextbookPages s);
          row = page_row now i v
      in if page_references s row
         then Some ([row], s\<lparr>TextbookPages := TextbookPages s @ [row], seq_TextbookPages := i\<rparr>)
         else None)"

definition insert_TextbookHighlights ::
    "date \<Rightarrow> TextbookHighlight_values \<Rightarrow> store
      \<Rightarrow> (TextbookHighlight list \<times> store) option" where
  "insert_TextbookHighlights now v s =
     (let i = next_id (map h_id (TextbookHighlights s)) (seq_TextbookHighlights s);
          row = highlight_row now i v
      in if highlight_references s row
         then Some ([row], s\<lparr>TextbookHighlights := TextbookHighlights s @ [row],
                            seq_TextbookHighlights := i\<rparr>)
         else None)"

definition insert_ScanJobs ::
    "date \<Rightarrow> ScanJob_values \<Rightarrow> store \<Rightarrow> (ScanJob list \<times> store) option" where
  "insert_ScanJobs now v s =
     (let i = next_id (map j_id (ScanJobs s)) (seq_ScanJobs s);
          row = job_row now i v
      in if job_references s row
         then Some ([row], s\<lparr>ScanJobs := ScanJobs s @ [row], seq_ScanJobs := i\<rparr>)
         else None)"

definition update_TextbookPages ::
    "(TextbookPage \<Rightarrow> bool) \<Rightarrow> (TextbookPage \<Rightarrow> TextbookPage) \<Rightarrow> store
      \<Rightarrow> (TextbookPage list \<times> store) option" where
  "update_TextbookPages P f s =
     (case db_update P f (TextbookPages s) of
        (rows, pages') \<Rightarrow>
          if list_all (page_references s) rows then Some (rows, s\<lparr>TextbookPages := pages'\<rparr>)
          else None)"

definition update_TextbookHighlights ::
    "(TextbookHighlight \<Rightarrow> bool) \<Rightarrow> (TextbookHighlight \<Rightarrow> TextbookHighlight) \<Rightarrow> store
      \<Rightarrow> (TextbookHighlight list \<times> store) option" where
  "update_TextbookHighlights P f s =
     (case db_update P f (TextbookHighlights s) of
        (rows, highlights') \<Rightarrow>
          if list_all (highlight_references s) rows
          then Some (rows, s\<lparr>TextbookHighlights := highlights'\<rparr>)
          else None)"

definition delete_TextbookPages ::
    "(TextbookPage \<Rightarrow> bool) \<Rightarrow> store \<Rightarrow> (TextbookPage list \<times> store) option" where
  "delete_TextbookPages P s =
     (case db_delete P (TextbookPages s) of
        (rows, pages') \<Rightarrow>
          if list_ex (page_referenced s) rows then None
          else Some (rows, s\<lparr>TextbookPages := pages'\<rparr>))"

section \<open>Action layer (src/actions/index.ts)\<close>

text \<open>
  Each handler takes the clock reading of the call (\<open>new Date()\<close>; the readings taken
  within one call are identified), the validated input, the request context and the
  store, and returns its result or the error it throws together with the store it
  leaves: a throw does not undo a write made before it. The input records are the shapes
  the input schemas let through: an \<open>optional\<close> field is an \<open>option\<close>, an integer is an
  \<open>int\<close>. The further checks of the schemas (non-empty title and content, positive
  pageNumber, URL syntax) narrow the inputs; the properties below hold for every input
  of the type.
\<close>

subsection \<open>Errors, the acting user, truthiness\<close>

datatype error_code = UNAUTHORIZED | NOT_FOUND

text \<open>
  What a handler throws: an ActionError of its own, or the error of a statement that the
  database refused, which no handler catches.
\<close>

datatype thrown = ActionError error_code string | ConstraintFailed

record user =
  u_id :: string

record locals =
  l_user :: "user option"

record ActionAPIContext =
  c_locals :: "locals option"

definition requireUser :: "ActionAPIContext \<Rightarrow> thrown + user" where
  "requireUser context =
     (case (case c_locals context of None \<Rightarrow> None | Some l \<Rightarrow> l_user l) of
        None \<Rightarrow> Inl (ActionError UNAUTHORIZED ''You must be signed in to perform this action.'')
      | Some u \<Rightarrow> Inr u)"

text \<open>
  JavaScript's truthiness of an optional integer, as in \<open>if (input.id)\<close>: undefined,
  null and 0 are falsy, every other integer is truthy.
\<close>

definition truthy :: "int option \<Rightarrow> bool" where
  "truthy v = (case v of None \<Rightarrow> False | Some n \<Rightarrow> n \<noteq> 0)"

text \<open>
  The ownership lookup every handler repeats:
  \<open>select from TextbookDocuments where id = i and ownerId = user.id limit 1\<close>.
\<close>

definition owned_document :: "user \<Rightarrow> int \<Rightarrow> store \<Rightarrow> TextbookDocument option" where
  "owned_document u i s =
     first (limit 1 (db_select (\<lambda>d. d_id d = i \<and> d_ownerId d = u_id u) (TextbookDocuments s)))"

subsection \<open>Document actions\<close>

record createDocument_input =
  cd_title :: string
  cd_description :: "string option"
  cd_subject :: "string option"
  cd_gradeLevel :: "string option"
  cd_board :: "string option"
  cd_sourceType :: "source_type option"
  cd_sourceMeta :: "json option"

definition createDocument ::
    "date \<Rightarrow> createDocument_input \<Rightarrow> ActionAPIContext \<Rightarrow> store
      \<Rightarrow> (thrown + TextbookDocument option) \<times> store" where
  "createDocument now inp ctx s =
     (case requireUser ctx of
        Inl e \<Rightarrow> (Inl e, s)
      | Inr u \<Rightarrow>
          (case insert_TextbookDocuments now
                  \<lparr>dv_ownerId = u_id u, dv_title = cd_title inp,
                   dv_description = cd_description inp, dv_subject = cd_subject inp,
                   dv_gradeLevel = cd_gradeLevel inp, dv_board = cd_board inp,
                   dv_sourceType = Some (or_default (cd_sourceType inp) Image_set),
                   dv_sourceMeta = cd_sourceMeta inp,
                   dv_createdAt = Some now, dv_updatedAt = Some now\<rparr> s of
             (rows, s') \<Rightarrow> (Inr (first rows), s')))"

record updateDocument_input =
  ud_id :: int
  ud_title :: "string option"
  ud_description :: "string option"
  ud_subject :: "string option"
  ud_gradeLevel :: "string option"
  ud_board :: "string option"
  ud_sourceType :: "source_type option"
  ud_sourceMeta :: "json option"

text \<open>
  One entry \<open>[key, value]\<close> of the object \<open>rest\<close> whose value is defined: the column it
  names and the value to write.
\<close>

datatype document_entry =
    Set_title string
  | Set_description string
  | Set_subject string
  | Set_gradeLevel string
  | Set_board string
  | Set_sourceType source_type
  | Set_sourceMeta json

text \<open>\<open>Object.entries(rest)\<close>: \<open>None\<close> stands for an entry whose value is undefined.\<close>

definition Object_entries_rest :: "updateDocument_input \<Rightarrow> document_entry option list" where
  "Object_entries_rest inp =
     [map_option Set_title (ud_title inp),
      map_option Set_description (ud_description inp),
      map_option Set_subject (ud_subject inp),
      map_option Set_gradeLevel (ud_gradeLevel inp),
      map_option Set_board (ud_board inp),
      map_option Set_sourceType (ud_sourceType inp),
      map_option Set_sourceMeta (ud_sourceMeta inp)]"

text \<open>The loop that copies the defined entries of \<open>rest\<close> into \<open>updateData\<close>.\<close>

fun copy_defined :: "document_entry option list \<Rightarrow> document_entry list \<Rightarrow> document_entry list" where
  "copy_defined [] updateData = updateData"
| "copy_defined (None # entries) updateData = copy_defined entries updateData"
| "copy_defined (Some e # entries) updateData = copy_defined entries (updateData @ [e])"

fun write_entry :: "document_entry \<Rightarrow> TextbookDocument \<Rightarrow> TextbookDocument" where
  "write_entry (Set_title v) d = d\<lparr>d_title := v\<rparr>"
| "write_entry (Set_description v) d = d\<lparr>d_description := Some v\<rparr>"
| "write_entry (Set_subject v) d = d\<lparr>d_subject := Some v\<rparr>"
| "write_entry (Set_gradeLevel v) d = d\<lparr>d_gradeLevel := Some v\<rparr>"
| "write_entry (Set_board v) d = d\<lparr>d_board := Some v\<rparr>"
| "write_entry (Set_sourceType v) d = d\<lparr>d_sourceType := v\<rparr>"
| "write_entry (Set_sourceMeta v) d = d\<lparr>d_sourceMeta := Some v\<rparr>"

text \<open>\<open>set({...updateData, updatedAt: new Date()})\<close> on one row.\<close>

definition set_TextbookDocuments ::
    "document_entry list \<Rightarrow> date \<Rightarrow> TextbookDocument \<Rightarrow> TextbookDocument" where
  "set_TextbookDocuments updateData now d = (fold write_entry updateData d)\<lparr>d_updatedAt := now\<rparr>"

definition updateDocument ::
    "date \<Rightarrow> updateDocument_input \<Rightarrow> ActionAPIContext \<Rightarrow> store
      \<Rightarrow> (thrown + TextbookDocument option) \<times> store" where
  "updateDocument now inp ctx s =
     (case requireUser ctx of
        Inl e \<Rightarrow> (Inl e, s)
      | Inr u \<Rightarrow>
          (case owned_document u (ud_id inp) s of
             None \<Rightarrow> (Inl (ActionError NOT_FOUND ''Document not found.''), s)
           | Some existing \<Rightarrow>
               (let updateData = copy_defined (Object_entries_rest inp) []
                in if length updateData = 0 then (Inr (Some existing), s)
                   else
                     (case db_update (\<lambda>d. d_id d = ud_id inp \<and> d_ownerId d = u_id u)
                             (set_TextbookDocuments updateData now) (TextbookDocuments s) of
                        (rows, docs') \<Rightarrow>
                          (Inr (first rows), s\<lparr>TextbookDocuments := docs'\<rparr>)))))"

definition listDocuments ::
    "ActionAPIContext \<Rightarrow> store \<Rightarrow> (thrown + TextbookDocument list) \<times> store" where
  "listDocuments ctx s =
     (case requireUser ctx of
        Inl e \<Rightarrow> (Inl e, s)
      | Inr u \<Rightarrow> (Inr (db_select (\<lambda>d. d_ownerId d = u_id u) (TextbookDocuments s)), s))"

definition getDocumentWithPages ::
    "int \<Rightarrow> ActionAPIContext \<Rightarrow> store
      \<Rightarrow> (thrown + TextbookDocument \<times> TextbookPage list) \<times> store" where
  "getDocumentWithPages i ctx s =
     (case requireUser ctx of
        Inl e \<Rightarrow> (Inl e, s)
      | Inr u \<Rightarrow>
          (case owned_document u i s of
             None \<Rightarrow> (Inl (ActionError NOT_FOUND ''Document not found.''), s)
           | Some document \<Rightarrow>
               (Inr (document, db_select (\<lambda>p. p_documentId p = i) (TextbookPages s)), s)))"

subsection \<open>Page actions\<close>

record savePage_input =
  sp_id :: "int option"
  sp_documentId :: int
  sp_pageNumber :: "int option"
  sp_imageUrl :: "string option"
  sp_ocrText :: "string option"
  sp_ocrBlocks :: "json option"

text \<open>
  \<open>set(baseValues)\<close> on one page row: a key whose value is undefined is ignored, every
  other key is written.
\<close>

definition set_TextbookPages :: "TextbookPage_values \<Rightarrow> TextbookPage \<Rightarrow> TextbookPage" where
  "set_TextbookPages v p =
     p\<lparr>p_documentId := pv_documentId v,
       p_pageNumber := or_default (pv_pageNumber v) (p_pageNumber p),
       p_imageUrl := keep_or_overwrite (pv_imageUrl v) (p_imageUrl p),
       p_ocrText := keep_or_overwrite (pv_ocrText v) (p_ocrText p),
       p_ocrBlocks := keep_or_overwrite (pv_ocrBlocks v) (p_ocrBlocks p),
       p_createdAt := or_default (pv_createdAt v) (p_createdAt p),
       p_updatedAt := or_default (pv_updatedAt v) (p_updatedAt p)\<rparr>"

definition savePage ::
    "date \<Rightarrow> savePage_input \<Rightarrow> ActionAPIContext \<Rightarrow> store
      \<Rightarrow> (thrown + TextbookPage option) \<times> store" where
  "savePage now inp ctx s =
     (case requireUser ctx of
        Inl e \<Rightarrow> (Inl e, s)
      | Inr u \<Rightarrow>
          (case owned_document u (sp_documentId inp) s of
             None \<Rightarrow> (Inl (ActionError NOT_FOUND ''Document not found.''), s)
           | Some document \<Rightarrow>
               (let baseValues =
                      \<lparr>pv_documentId = sp_documentId inp,
                       pv_pageNumber = Some (or_default (sp_pageNumber inp) 1),
                       pv_imageUrl = sp_imageUrl inp, pv_ocrText = sp_ocrText inp,
                       pv_ocrBlocks = sp_ocrBlocks inp,
                       pv_createdAt = Some now, pv_updatedAt = Some now\<rparr>
                in if truthy (sp_id inp) then
                     (case first (limit 1 (db_select (\<lambda>p. Some (p_id p) = sp_id inp)
                                              (TextbookPages s))) of
                        None \<Rightarrow> (Inl (ActionError NOT_FOUND ''Page not found.''), s)
                      | Some existing \<Rightarrow>
                          if p_documentId existing \<noteq> sp_documentId inp
                          then (Inl (ActionError NOT_FOUND ''Page not found.''), s)
                          else
                            (case update_TextbookPages (\<lambda>p. Some (p_id p) = sp_id inp)
                                    (set_TextbookPages baseValues) s of
                               None \<Rightarrow> (Inl ConstraintFailed, s)
                             | Some (rows, s') \<Rightarrow> (Inr (first rows), s')))
                   else
                     (case insert_TextbookPages now baseValues s of
                        None \<Rightarrow> (Inl ConstraintFailed, s)
                      | Some (rows, s') \<Rightarrow> (Inr (first rows), s')))))"

record deletePage_input =
  dp_id :: int
  dp_documentId :: int

definition deletePage ::
    "deletePage_input \<Rightarrow> ActionAPIContext \<Rightarrow> store \<Rightarrow> (thrown + TextbookPage) \<times> store" where
  "deletePage inp ctx s =
     (case requireUser ctx of
        Inl e \<Rightarrow> (Inl e, s)
      | Inr u \<Rightarrow>
          (case owned_document u (dp_documentId inp) s of
             None \<Rightarrow> (Inl (ActionError NOT_FOUND ''Document not found.''), s)
           | Some document \<Rightarrow>
               (case delete_TextbookPages
                       (\<lambda>p. p_id p = dp_id inp \<and> p_documentId p = dp_documentId inp) s of
                  None \<Rightarrow> (Inl ConstraintFailed, s)
                | Some (rows, s') \<Rightarrow>
                    (case first rows of
                       None \<Rightarrow> (Inl (ActionError NOT_FOUND ''Page not found.''), s')
                     | Some deleted \<Rightarrow> (Inr deleted, s')))))"

subsection \<open>Highlight actions\<close>

record saveHighlight_input =
  sh_id :: "int option"
  sh_documentId :: int
  sh_pageId :: "int option"
  sh_highlightType :: "highlight_type option"
  sh_content :: string
  sh_meta :: "json option"

definition set_TextbookHighlights ::
    "TextbookHighlight_values \<Rightarrow> TextbookHighlight \<Rightarrow> TextbookHighlight" where
  "set_TextbookHighlights v h =
     h\<lparr>h_documentId := hv_documentId v,
       h_pageId := keep_or_overwrite (hv_pageId v) (h_pageId h),
       h_highlightType := or_default (hv_highlightType v) (h_highlightType h),
       h_content := hv_content v,
       h_meta := keep_or_overwrite (hv_meta v) (h_meta h),
       h_createdAt := or_default (hv_createdAt v) (h_createdAt h)\<rparr>"

definition saveHighlight ::
    "date \<Rightarrow> saveHighlight_input \<Rightarrow> ActionAPIContext \<Rightarrow> store
      \<Rightarrow> (thrown + TextbookHighlight option) \<times> store" where
  "saveHighlight now inp ctx s =
     (case requireUser ctx of
        Inl e \<Rightarrow> (Inl e, s)
      | Inr u \<Rightarrow>
          (case owned_document u (sh_documentId inp) s of
             None \<Rightarrow> (Inl (ActionError NOT_FOUND ''Document not found.''), s)
           | Some document \<Rightarrow>
               if truthy (sh_pageId inp) \<and>
                  first (limit 1 (db_select
                    (\<lambda>p. Some (p_id p) = sh_pageId inp \<and> p_documentId p = sh_documentId inp)
                    (TextbookPages s))) = None
               then (Inl (ActionError NOT_FOUND ''Page not found.''), s)
               else
                 (let baseValues =
                        \<lparr>hv_documentId = sh_documentId inp, hv_pageId = sh_pageId inp,
                         hv_highlightType = Some (or_default (sh_highlightType inp) Key_point),
                         hv_content = sh_content inp, hv_meta = sh_meta inp,
                         hv_createdAt = Some now\<rparr>
                  in if truthy (sh_id inp) then
                       (case first (limit 1 (db_select (\<lambda>h. Some (h_id h) = sh_id inp)
                                                (TextbookHighlights s))) of
                          None \<Rightarrow> (Inl (ActionError NOT_FOUND ''Highlight not found.''), s)
                        | Some existing \<Rightarrow>
                            if h_documentId existing \<noteq> sh_documentId inp
                            then (Inl (ActionError NOT_FOUND ''Highlight not found.''), s)
                            else
                              (case update_TextbookHighlights
                                      (\<lambda>h. Some (h_id h) = sh_id inp)
                                      (set_TextbookHighlights baseValues) s of
                                 None \<Rightarrow> (Inl ConstraintFailed, s)
                               | Some (rows, s') \<Rightarrow> (Inr (first rows), s')))
                     else
                       (case insert_TextbookHighlights now baseValues s of
                          None \<Rightarrow> (Inl ConstraintFailed, s)
                        | Some (rows, s') \<Rightarrow> (Inr (first rows), s')))))"

record deleteHighlight_input =
  dh_id :: int
  dh_documentId :: int

definition deleteHighlight ::
    "deleteHighlight_input \<Rightarrow> ActionAPIContext \<Rightarrow> store
      \<Rightarrow> (thrown + TextbookHighlight) \<times> store" where
  "deleteHighlight inp ctx s =
     (case requireUser ctx of
        Inl e \<Rightarrow> (Inl e, s)
      | Inr u \<Rightarrow>
          (case owned_document u (dh_documentId inp) s of
             None \<Rightarrow> (Inl (ActionError NOT_FOUND ''Document not found.''), s)
           | Some document \<Rightarrow>
               (case db_delete (\<lambda>h. h_id h = dh_id inp \<and> h_documentId h = dh_documentId inp)
                       (TextbookHighlights s) of
                  (rows, highlights') \<Rightarrow>
                    (case first rows of
                       None \<Rightarrow> (Inl (ActionError NOT_FOUND ''Highlight not found.''),
                                 s\<lparr>TextbookHighlights := highlights'\<rparr>)
                     | Some deleted \<Rightarrow>
                         (Inr deleted, s\<lparr>TextbookHighlights := highlights'\<rparr>)))))"

subsection \<open>Scan job actions\<close>

record createScanJob_input =
  cj_documentId :: "int option"
  cj_pageId :: "int option"
  cj_jobType :: "job_type option"
  cj_input :: "json option"
  cj_output :: "json option"
  cj_status :: "job_status option"

definition createScanJob ::
    "date \<Rightarrow> createScanJob_input \<Rightarrow> ActionAPIContext \<Rightarrow> store
      \<Rightarrow> (thrown + ScanJob option) \<times> store" where
  "createScanJob now inp ctx s =
     (case requireUser ctx of
        Inl e \<Rightarrow> (Inl e, s)
      | Inr u \<Rightarrow>
          if truthy (cj_documentId inp) \<and>
             first (limit 1 (db_select
               (\<lambda>d. Some (d_id d) = cj_documentId inp \<and> d_ownerId d = u_id u)
               (TextbookDocuments s))) = None
          then (Inl (ActionError NOT_FOUND ''Document not found.''), s)
          else if truthy (cj_pageId inp) \<and>
             first (limit 1 (db_select (\<lambda>p. Some (p_id p) = cj_pageId inp)
               (TextbookPages s))) = None
          then (Inl (ActionError NOT_FOUND ''Page not found.''), s)
          else
            (case insert_ScanJobs now
                    \<lparr>jv_documentId = cj_documentId inp, jv_pageId = cj_pageId inp,
                     jv_userId = Some (u_id u),
                     jv_jobType = Some (or_default (cj_jobType inp) Full_pipeline),
                     jv_input = cj_input inp, jv_output = cj_output inp,
                     jv_status = Some (or_default (cj_status inp) Pending),
                     jv_createdAt = Some now\<rparr> s of
               None \<Rightarrow> (Inl ConstraintFailed, s)
             | Some (rows, s') \<Rightarrow> (Inr (first rows), s')))"

record listScanJobs_input =
  lj_documentId :: "int option"
  lj_pageId :: "int option"
  lj_status :: "job_status option"

text \<open>
  The in-memory predicate of \<open>jobs.filter\<close>. The input object itself is optional
  (\<open>input?.pageId\<close>); a status, being a non-empty string, is truthy whenever it is given.
\<close>

definition job_passes :: "int set \<Rightarrow> listScanJobs_input option \<Rightarrow> ScanJob \<Rightarrow> bool" where
  "job_passes allowedDocIds inp job =
     (let matchesDoc =
            (if truthy (j_documentId job)
             then (case j_documentId job of None \<Rightarrow> False | Some d \<Rightarrow> d \<in> allowedDocIds)
             else True);
          matchesPage =
            (if truthy (Option.bind inp lj_pageId)
             then j_pageId job = Option.bind inp lj_pageId else True);
          matchesStatus =
            (if Option.bind inp lj_status \<noteq> None
             then Some (j_status job) = Option.bind inp lj_status else True);
          matchesRequestedDoc =
            (if truthy (Option.bind inp lj_documentId)
             then j_documentId job = Option.bind inp lj_documentId else True)
      in matchesDoc \<and> matchesPage \<and> matchesStatus \<and> matchesRequestedDoc)"

definition listScanJobs ::
    "listScanJobs_input option \<Rightarrow> ActionAPIContext \<Rightarrow> store
      \<Rightarrow> (thrown + ScanJob list) \<times> store" where
  "listScanJobs inp ctx s =
     (case requireUser ctx of
        Inl e \<Rightarrow> (Inl e, s)
      | Inr u \<Rightarrow>
          (let documents = db_select (\<lambda>d. d_ownerId d = u_id u) (TextbookDocuments s);
               allowedDocIds = set (map d_id documents);
               jobs = db_select (\<lambda>j. j_userId j = Some (u_id u)) (ScanJobs s)
           in (Inr (filter (job_passes allowedDocIds inp) jobs), s)))"

subsection \<open>The exposed operations as requests\<close>

text \<open>
  One value per exported action with its input, so that a sequence of calls can be run
  against a store. Each call has its own clock reading and its own request context.
\<close>

datatype request =
    CreateDocument createDocument_input
  | UpdateDocument updateDocument_input
  | ListDocuments
  | GetDocumentWithPages int
  | SavePage savePage_input
  | DeletePage deletePage_input
  | SaveHighlight saveHighlight_input
  | DeleteHighlight deleteHighlight_input
  | CreateScanJob createScanJob_input
  | ListScanJobs "listScanJobs_input option"

fun perform :: "date \<Rightarrow> ActionAPIContext \<Rightarrow> request \<Rightarrow> store \<Rightarrow> store" where
  "perform now ctx (CreateDocument inp) s = snd (createDocument now inp ctx s)"
| "perform now ctx (UpdateDocument inp) s = snd (updateDocument now inp ctx s)"
| "perform now ctx ListDocuments s = snd (listDocuments ctx s)"
| "perform now ctx (GetDocumentWithPages i) s = snd (getDocumentWithPages i ctx s)"
| "perform now ctx (SavePage inp) s = snd (savePage now inp ctx s)"
| "perform now ctx (DeletePage inp) s = snd (deletePage inp ctx s)"
| "perform now ctx (SaveHighlight inp) s = snd (saveHighlight now inp ctx s)"
| "perform now ctx (DeleteHighlight inp) s = snd (deleteHighlight inp ctx s)"
| "perform now ctx (CreateScanJob inp) s = snd (createScanJob now inp ctx s)"
| "perform now ctx (ListScanJobs inp) s = snd (listScanJobs inp ctx s)"

fun run :: "(date \<times> ActionAPIContext \<times> request) list \<Rightarrow> store \<Rightarrow> store" where
  "run [] s = s"
| "run ((now, ctx, r) # calls) s = run calls (perform now ctx r s)"

section \<open>Properties of the store\<close>

text \<open>The primary-key declarations of the schema: the keys of a table are pairwise distinct.\<close>

definition primary_keys :: "store \<Rightarrow> bool" where
  "primary_keys s =
     (distinct (map d_id (TextbookDocuments s)) \<and> distinct (map p_id (TextbookPages s)) \<and>
      distinct (map h_id (TextbookHighlights s)) \<and> distinct (map j_id (ScanJobs s)))"

text \<open>
  The highlight invariant of the data model: a highlight whose pageId is set references
  an existing page whose documentId is the highlight's documentId.
\<close>

definition highlight_linked :: "TextbookPage list \<Rightarrow> TextbookHighlight \<Rightarrow> bool" where
  "highlight_linked pages h =
     (case h_pageId h of
        None \<Rightarrow> True
      | Some pid \<Rightarrow> list_ex (\<lambda>p. p_id p = pid \<and> p_documentId p = h_documentId h) pages)"

definition highlights_linked :: "store \<Rightarrow> bool" where
  "highlights_linked s = list_all (highlight_linked (TextbookPages s)) (TextbookHighlights s)"

text \<open>
  What the schema guarantees of a store: the primary keys are distinct, every declared
  reference holds, and the auto-increment keys of documents and pages are positive (the
  counters never go below 0).
\<close>

definition references_hold :: "store \<Rightarrow> bool" where
  "references_hold s =
     (list_all (page_references s) (TextbookPages s) \<and>
      list_all (highlight_references s) (TextbookHighlights s) \<and>
      list_all (job_references s) (ScanJobs s))"

definition keys_positive :: "store \<Rightarrow> bool" where
  "keys_positive s =
     (0 \<le> seq_TextbookDocuments s \<and> 0 \<le> seq_TextbookPages s \<and>
      list_all (\<lambda>d. 0 < d_id d) (TextbookDocuments s) \<and>
      list_all (\<lambda>p. 0 < p_id p) (TextbookPages s))"

definition consistent :: "store \<Rightarrow> bool" where
  "consistent s = (primary_keys s \<and> references_hold s \<and> keys_positive s)"

text \<open>
  The partial merge of updateDocument in the spec's words: only the fields present in the
  input overwrite the stored document, every omitted field keeps its previous value, and
  the updated timestamp is set to the current time when at least one field is supplied.
\<close>

definition any_field_supplied :: "updateDocument_input \<Rightarrow> bool" where
  "any_field_supplied inp =
     (ud_title inp \<noteq> None \<or> ud_description inp \<noteq> None \<or> ud_subject inp \<noteq> None \<or>
      ud_gradeLevel inp \<noteq> None \<or> ud_board inp \<noteq> None \<or> ud_sourceType inp \<noteq> None \<or>
      ud_sourceMeta inp \<noteq> None)"

definition merged_document ::
    "date \<Rightarrow> updateDocument_input \<Rightarrow> TextbookDocument \<Rightarrow> TextbookDocument" where
  "merged_document now inp d =
     \<lparr>d_id = d_id d, d_ownerId = d_ownerId d,
      d_title = or_default (ud_title inp) (d_title d),
      d_description = keep_or_overwrite (ud_description inp) (d_description d),
      d_subject = keep_or_overwrite (ud_subject inp) (d_subject d),
      d_gradeLevel = keep_or_overwrite (ud_gradeLevel inp) (d_gradeLevel d),
      d_board = keep_or_overwrite (ud_board inp) (d_board d),
      d_sourceType = or_default (ud_sourceType inp) (d_sourceType d),
      d_sourceMeta = keep_or_overwrite (ud_sourceMeta inp) (d_sourceMeta d),
      d_createdAt = d_createdAt d,
      d_updatedAt = (if any_field_supplied inp then now else d_updatedAt d)\<rparr>"

text \<open>
  The page row savePage writes when every writable field is taken from the input: an
  omitted optional field is empty, pageNumber falls back to 1, both timestamps are the
  current time.
\<close>

definition replaced_page :: "date \<Rightarrow> savePage_input \<Rightarrow> int \<Rightarrow> TextbookPage" where
  "replaced_page now inp i =
     \<lparr>p_id = i, p_documentId = sp_documentId inp,
      p_pageNumber = (case sp_pageNumber inp of None \<Rightarrow> 1 | Some n \<Rightarrow> n),
      p_imageUrl = sp_imageUrl inp, p_ocrText = sp_ocrText inp, p_ocrBlocks = sp_ocrBlocks inp,
      p_createdAt = now, p_updatedAt = now\<rparr>"

text \<open>
  The page row an update by savePage leaves behind: pageNumber and both timestamps are
  always written, each of imageUrl, ocrText and ocrBlocks is overwritten when supplied
  and kept when omitted.
\<close>

definition resaved_page :: "date \<Rightarrow> savePage_input \<Rightarrow> TextbookPage \<Rightarrow> TextbookPage" where
  "resaved_page now inp p =
     \<lparr>p_id = p_id p, p_documentId = p_documentId p,
      p_pageNumber = (case sp_pageNumber inp of None \<Rightarrow> 1 | Some n \<Rightarrow> n),
      p_imageUrl = (case sp_imageUrl inp of None \<Rightarrow> p_imageUrl p | Some v \<Rightarrow> Some v),
      p_ocrText = (case sp_ocrText inp of None \<Rightarrow> p_ocrText p | Some v \<Rightarrow> Some v),
      p_ocrBlocks = (case sp_ocrBlocks inp of None \<Rightarrow> p_ocrBlocks p | Some v \<Rightarrow> Some v),
      p_createdAt = now, p_updatedAt = now\<rparr>"

text \<open>
  The scan job createScanJob inserts, in the spec's words: stamped with the acting user's
  id, jobType defaulting to full_pipeline and status to pending.
\<close>

definition new_job :: "date \<Rightarrow> user \<Rightarrow> createScanJob_input \<Rightarrow> store \<Rightarrow> ScanJob" where
  "new_job now u inp s =
     \<lparr>j_id = next_id (map j_id (ScanJobs s)) (seq_ScanJobs s),
      j_documentId = cj_documentId inp, j_pageId = cj_pageId inp,
      j_userId = Some (u_id u),
      j_jobType = (case cj_jobType inp of None \<Rightarrow> Full_pipeline | Some t \<Rightarrow> t),
      j_input = cj_input inp, j_output = cj_output inp,
      j_status = (case cj_status inp of None \<Rightarrow> Pending | Some st \<Rightarrow> st),
      j_createdAt = now\<rparr>"

definition with_job :: "ScanJob \<Rightarrow> store \<Rightarrow> store" where
  "with_job job s = s\<lparr>ScanJobs := ScanJobs s @ [job], seq_ScanJobs := j_id job\<rparr>"

text \<open>The two guards of createScanJob, as conditions on the store.\<close>

definition owns_document :: "user \<Rightarrow> int \<Rightarrow> store \<Rightarrow> bool" where
  "owns_document u i s = list_ex (\<lambda>d. d_id d = i \<and> d_ownerId d = u_id u) (TextbookDocuments s)"

definition page_exists :: "int \<Rightarrow> store \<Rightarrow> bool" where
  "page_exists i s = list_ex (\<lambda>p. p_id p = i) (TextbookPages s)"

definition document_guard_passes :: "user \<Rightarrow> createScanJob_input \<Rightarrow> store \<Rightarrow> bool" where
  "document_guard_passes u inp s =
     (case cj_documentId inp of
        None \<Rightarrow> True
      | Some i \<Rightarrow> if i = 0 then True else owns_document u i s)"

definition page_guard_passes :: "createScanJob_input \<Rightarrow> store \<Rightarrow> bool" where
  "page_guard_passes inp s =
     (case cj_pageId inp of None \<Rightarrow> True | Some i \<Rightarrow> if i = 0 then True else page_exists i s)"

text \<open>The references of the job a createScanJob call would insert.\<close>

definition job_references_hold :: "createScanJob_input \<Rightarrow> store \<Rightarrow> bool" where
  "job_references_hold inp s =
     (refers_to (map d_id (TextbookDocuments s)) (cj_documentId inp) \<and>
      refers_to (map p_id (TextbookPages s)) (cj_pageId inp))"

section \<open>Example users and stores\<close>

definition alice :: user where
  "alice = \<lparr>u_id = ''alice''\<rparr>"

definition bob :: user where
  "bob = \<lparr>u_id = ''bob''\<rparr>"

definition signed_in :: "user \<Rightarrow> ActionAPIContext" where
  "signed_in u = \<lparr>c_locals = Some \<lparr>l_user = Some u\<rparr>\<rparr>"

definition empty_store :: store where
  "empty_store =
     \<lparr>TextbookDocuments = [], TextbookPages = [], TextbookHighlights = [], ScanJobs = [],
      seq_TextbookDocuments = 0, seq_TextbookPages = 0, seq_TextbookHighlights = 0,
      seq_ScanJobs = 0\<rparr>"

definition chapter2 :: TextbookDocument where
  "chapter2 =
     \<lparr>d_id = 1, d_ownerId = ''alice'', d_title = ''Chapter 2'', d_description = None,
      d_subject = Some ''Physics'', d_gradeLevel = None, d_board = None,
      d_sourceType = Image_set, d_sourceMeta = None, d_createdAt = 10, d_updatedAt = 10\<rparr>"

definition bobs_notes :: TextbookDocument where
  "bobs_notes =
     \<lparr>d_id = 2, d_ownerId = ''bob'', d_title = ''Biology Unit 4 Notes'', d_description = None,
      d_subject = None, d_gradeLevel = None, d_board = None,
      d_sourceType = Pdf, d_sourceMeta = None, d_createdAt = 11, d_updatedAt = 11\<rparr>"

definition page1 :: TextbookPage where
  "page1 =
     \<lparr>p_id = 1, p_documentId = 1, p_pageNumber = 4, p_imageUrl = Some ''https://img/4.png'',
      p_ocrText = Some ''Newton'', p_ocrBlocks = None, p_createdAt = 12, p_updatedAt = 12\<rparr>"

definition bobs_page :: TextbookPage where
  "bobs_page =
     \<lparr>p_id = 2, p_documentId = 2, p_pageNumber = 1, p_imageUrl = None,
      p_ocrText = Some ''Cells'', p_ocrBlocks = None, p_createdAt = 13, p_updatedAt = 13\<rparr>"

definition formula :: TextbookHighlight where
  "formula =
     \<lparr>h_id = 1, h_documentId = 1, h_pageId = Some 1, h_highlightType = Formula,
      h_content = ''F=ma'', h_meta = None, h_createdAt = 14\<rparr>"

definition ocr_job :: ScanJob where
  "ocr_job =
     \<lparr>j_id = 1, j_documentId = Some 1, j_pageId = Some 1, j_userId = Some ''alice'',
      j_jobType = Ocr, j_input = None, j_output = None, j_status = Pending,
      j_createdAt = 15\<rparr>"

definition library :: store where
  "library =
     \<lparr>TextbookDocuments = [chapter2, bobs_notes], TextbookPages = [page1, bobs_page],
      TextbookHighlights = [formula], ScanJobs = [ocr_job],
      seq_TextbookDocuments = 2, seq_TextbookPages = 2, seq_TextbookHighlights = 1,
      seq_ScanJobs = 1\<rparr>"

definition spare_page :: TextbookPage where
  "spare_page =
     \<lparr>p_id = 3, p_documentId = 1, p_pageNumber = 9, p_imageUrl = None,
      p_ocrText = None, p_ocrBlocks = None, p_createdAt = 16, p_updatedAt = 16\<rparr>"

text \<open>The library with one more page of chapter 2, which nothing references.\<close>

definition library_with_spare :: store where
  "library_with_spare =
     library\<lparr>TextbookPages := [page1, bobs_page, spare_page], seq_TextbookPages := 3\<rparr>"

text \<open>
  The scenario of the spec: a document, one page of it, and a highlight on that page.
\<close>

definition scenario :: "(date \<times> ActionAPIContext \<times> request) list" where
  "scenario =
     [(1, signed_in alice,
       CreateDocument \<lparr>cd_title = ''Chapter 2'', cd_description = None, cd_subject = None,
         cd_gradeLevel = None, cd_board = None, cd_sourceType = None, cd_sourceMeta = None\<rparr>),
      (2, signed_in alice,
       SavePage \<lparr>sp_id = None, sp_documentId = 1, sp_pageNumber = None, sp_imageUrl = None,
         sp_ocrText = Some ''Newton'', sp_ocrBlocks = None\<rparr>),
      (3, signed_in alice,
       SaveHighlight \<lparr>sh_id = None, sh_documentId = 1, sh_pageId = Some 1,
         sh_highlightType = Some Formula, sh_content = ''F=ma'', sh_meta = None\<rparr>)]"

section \<open>Gateway lemmas\<close>

lemmas gateway_defs = db_select_def limit_def db_update_def db_delete_def first_def or_default_def

lemmas example_defs = alice_def bob_def signed_in_def empty_store_def chapter2_def
  bobs_notes_def page1_def bobs_page_def formula_def ocr_job_def library_def spare_page_def
  library_with_spare_def

lemma requireUser_signed_in: "requireUser (signed_in u) = Inr u"
  by (simp add: requireUser_def signed_in_def)

lemma first_limit_select: "first (limit 1 (db_select P rows)) = List.find P rows"
  by (induction rows) (simp_all add: gateway_defs)

lemma find_unique_key:
  assumes "distinct (map key rows)" and "r \<in> set rows" and "P r"
    and "\<And>r'. P r' \<Longrightarrow> key r' = key r"
  shows "List.find P rows = Some r"
  using assms
proof (induction rows)
  case Nil
  then show ?case by simp
next
  case (Cons a rows)
  show ?case
  proof (cases "P a")
    case True
    have "key a = key r" using Cons.prems(4) True by blast
    with Cons.prems(1,2) have "a = r" by (auto simp: image_iff)
    with True show ?thesis by simp
  next
    case False
    with Cons.prems(2,3) have "r \<in> set rows" by auto
    moreover from Cons.prems(1) have "distinct (map key rows)" by simp
    ultimately have "List.find P rows = Some r"
      using Cons.IH Cons.prems(3,4) by blast
    with False show ?thesis by simp
  qed
qed

lemma owned_document_find:
  "owned_document u i s =
     List.find (\<lambda>d. d_id d = i \<and> d_ownerId d = u_id u) (TextbookDocuments s)"
  unfolding owned_document_def by (rule first_limit_select)

lemma owned_document_unique:
  assumes "distinct (map d_id (TextbookDocuments s))" and "d \<in> set (TextbookDocuments s)"
    and "d_ownerId d = u_id u"
  shows "owned_document u (d_id d) s = Some d"
  unfolding owned_document_find
  by (rule find_unique_key [where key = d_id]) (use assms in auto)

lemma copy_defined_append:
  "copy_defined entries updateData =
     updateData @ concat (map (case_option [] (\<lambda>e. [e])) entries)"
  by (induction entries updateData rule: copy_defined.induct) simp_all

lemma entry_of_map_option:
  "case_option [] (\<lambda>e. [e]) (map_option f v) = (case v of None \<Rightarrow> [] | Some x \<Rightarrow> [f x])"
  by (cases v) simp_all

lemma updateData_entries:
  "copy_defined (Object_entries_rest inp) [] =
     (case ud_title inp of None \<Rightarrow> [] | Some x \<Rightarrow> [Set_title x]) @
     (case ud_description inp of None \<Rightarrow> [] | Some x \<Rightarrow> [Set_description x]) @
     (case ud_subject inp of None \<Rightarrow> [] | Some x \<Rightarrow> [Set_subject x]) @
     (case ud_gradeLevel inp of None \<Rightarrow> [] | Some x \<Rightarrow> [Set_gradeLevel x]) @
     (case ud_board inp of None \<Rightarrow> [] | Some x \<Rightarrow> [Set_board x]) @
     (case ud_sourceType inp of None \<Rightarrow> [] | Some x \<Rightarrow> [Set_sourceType x]) @
     (case ud_sourceMeta inp of None \<Rightarrow> [] | Some x \<Rightarrow> [Set_sourceMeta x])"
  by (simp add: copy_defined_append Object_entries_rest_def entry_of_map_option del: case_map_option)

lemma entry_list_empty:
  "(case v of None \<Rightarrow> [] | Some x \<Rightarrow> [f x]) = [] \<longleftrightarrow> v = None"
  by (cases v) simp_all

lemma updateData_empty:
  "copy_defined (Object_entries_rest inp) [] = [] \<longleftrightarrow> \<not> any_field_supplied inp"
  by (simp add: updateData_entries entry_list_empty any_field_supplied_def)

lemma write_title:
  "fold write_entry (case v of None \<Rightarrow> [] | Some x \<Rightarrow> [Set_title x]) d =
     d\<lparr>d_title := or_default v (d_title d)\<rparr>"
  by (cases v) (simp_all add: or_default_def)

lemma write_description:
  "fold write_entry (case v of None \<Rightarrow> [] | Some x \<Rightarrow> [Set_description x]) d =
     d\<lparr>d_description := keep_or_overwrite v (d_description d)\<rparr>"
  by (cases v) (simp_all add: keep_or_overwrite_def)

lemma write_subject:
  "fold write_entry (case v of None \<Rightarrow> [] | Some x \<Rightarrow> [Set_subject x]) d =
     d\<lparr>d_subject := keep_or_overwrite v (d_subject d)\<rparr>"
  by (cases v) (simp_all add: keep_or_overwrite_def)

lemma write_gradeLevel:
  "fold write_entry (case v of None \<Rightarrow> [] | Some x \<Rightarrow> [Set_gradeLevel x]) d =
     d\<lparr>d_gradeLevel := keep_or_overwrite v (d_gradeLevel d)\<rparr>"
  by (cases v) (simp_all add: keep_or_overwrite_def)

lemma write_board:
  "fold write_entry (case v of None \<Rightarrow> [] | Some x \<Rightarrow> [Set_board x]) d =
     d\<lparr>d_board := keep_or_overwrite v (d_board d)\<rparr>"
  by (cases v) (simp_all add: keep_or_overwrite_def)

lemma write_sourceType:
  "fold write_entry (case v of None \<Rightarrow> [] | Some x \<Rightarrow> [Set_sourceType x]) d =
     d\<lparr>d_sourceType := or_default v (d_sourceType d)\<rparr>"
  by (cases v) (simp_all add: or_default_def)

lemma write_sourceMeta:
  "fold write_entry (case v of None \<Rightarrow> [] | Some x \<Rightarrow> [Set_sourceMeta x]) d =
     d\<lparr>d_sourceMeta := keep_or_overwrite v (d_sourceMeta d)\<rparr>"
  by (cases v) (simp_all add: keep_or_overwrite_def)

lemmas write_column = write_title write_description write_subject write_gradeLevel
  write_board write_sourceType write_sourceMeta

lemma set_TextbookDocuments_merged:
  assumes "any_field_supplied inp"
  shows "set_TextbookDocuments (copy_defined (Object_entries_rest inp) []) now d =
           merged_document now inp d"
  using assms
  by (cases d) (simp add: set_TextbookDocuments_def updateData_entries write_column
      merged_document_def)

lemma merged_document_nothing_supplied:
  assumes "\<not> any_field_supplied inp"
  shows "merged_document now inp d = d"
  using assms
  by (cases d) (simp add: merged_document_def any_field_supplied_def or_default_def
      keep_or_overwrite_def)

lemma first_map: "first (map f rows) = map_option f (first rows)"
  by (cases rows) (simp_all add: first_def)

lemma first_filter: "first (filter P rows) = List.find P rows"
  by (induction rows) (simp_all add: first_def)

lemma map_only_row:
  assumes "distinct (map key rows)" and "r \<in> set rows" and "P r"
    and "\<And>r'. P r' \<Longrightarrow> key r' = key r"
  shows "map (\<lambda>x. if P x then f x else x) rows = map (\<lambda>x. if x = r then f r else x) rows"
proof (rule map_cong [OF refl])
  fix x assume "x \<in> set rows"
  show "(if P x then f x else x) = (if x = r then f r else x)"
  proof (cases "P x")
    case True
    then have "key x = key r" by (rule assms(4))
    with assms(1,2) \<open>x \<in> set rows\<close> have "x = r" by (auto simp: distinct_map inj_on_def)
    with True show ?thesis by simp
  next
    case False
    with assms(3) show ?thesis by auto
  qed
qed

section \<open>updateDocument\<close>

text \<open>
  C7. For every owned document, updateDocument with an input that holds only the id
  (no optional field present) performs no write: the store after the call is the store
  before it, and the call returns the stored record unchanged.
\<close>

theorem updateDocument_only_id_no_write:
  assumes "requireUser ctx = Inr u"
    and "distinct (map d_id (TextbookDocuments s))"
    and "d \<in> set (TextbookDocuments s)" and "d_ownerId d = u_id u"
  shows "updateDocument now
           \<lparr>ud_id = d_id d, ud_title = None, ud_description = None, ud_subject = None,
            ud_gradeLevel = None, ud_board = None, ud_sourceType = None,
            ud_sourceMeta = None\<rparr> ctx s = (Inr (Some d), s)"
proof -
  have "owned_document u (d_id d) s = Some d"
    using assms(2-4) by (rule owned_document_unique)
  then show ?thesis
    using assms(1) by (simp add: updateDocument_def Object_entries_rest_def)
qed

theorem updateDocument_only_id_no_write_witness:
  "updateDocument 99
     \<lparr>ud_id = 1, ud_title = None, ud_description = None, ud_subject = None,
      ud_gradeLevel = None, ud_board = None, ud_sourceType = None,
      ud_sourceMeta = None\<rparr> (signed_in alice) library = (Inr (Some chapter2), library)"
proof -
  have "requireUser (signed_in alice) = Inr alice"
    by (rule requireUser_signed_in)
  moreover have "distinct (map d_id (TextbookDocuments library))"
    by (simp add: library_def chapter2_def bobs_notes_def)
  moreover have "chapter2 \<in> set (TextbookDocuments library)"
    by (simp add: library_def)
  moreover have "d_ownerId chapter2 = u_id alice"
    by (simp add: chapter2_def alice_def)
  ultimately have "updateDocument 99
     \<lparr>ud_id = d_id chapter2, ud_title = None, ud_description = None, ud_subject = None,
      ud_gradeLevel = None, ud_board = None, ud_sourceType = None,
      ud_sourceMeta = None\<rparr> (signed_in alice) library = (Inr (Some chapter2), library)"
    by (rule updateDocument_only_id_no_write)
  moreover have "d_id chapter2 = 1" by (simp add: chapter2_def)
  ultimately show ?thesis by simp
qed

text \<open>
  C5. For every owned document and every updateDocument input, only the fields present
  in the input overwrite the stored document, every omitted field keeps its previous
  value, and the updated timestamp is set to the current time whenever at least one
  field is supplied. No other row and no other table changes.
\<close>

theorem updateDocument_partial_merge:
  assumes "requireUser ctx = Inr u"
    and "distinct (map d_id (TextbookDocuments s))"
    and "d \<in> set (TextbookDocuments s)" and "d_ownerId d = u_id u"
    and "ud_id inp = d_id d"
  shows "updateDocument now inp ctx s =
           (Inr (Some (merged_document now inp d)),
            s\<lparr>TextbookDocuments :=
                map (\<lambda>r. if r = d then merged_document now inp d else r)
                  (TextbookDocuments s)\<rparr>)"
proof -
  let ?P = "\<lambda>r. d_id r = ud_id inp \<and> d_ownerId r = u_id u"
  have owned: "owned_document u (ud_id inp) s = Some d"
    using owned_document_unique [OF assms(2-4)] assms(5) by simp
  show ?thesis
  proof (cases "any_field_supplied inp")
    case False
    then have same: "merged_document now inp d = d"
      by (rule merged_document_nothing_supplied)
    have "map (\<lambda>r. if r = d then merged_document now inp d else r) (TextbookDocuments s) =
          TextbookDocuments s"
      unfolding same by (rule map_idI) simp
    then have "s\<lparr>TextbookDocuments :=
                map (\<lambda>r. if r = d then merged_document now inp d else r)
                  (TextbookDocuments s)\<rparr> = s"
      by simp
    moreover have "updateDocument now inp ctx s = (Inr (Some d), s)"
      using False owned assms(1) by (simp add: updateDocument_def updateData_empty Let_def)
    ultimately show ?thesis
      using same by simp
  next
    case True
    let ?f = "set_TextbookDocuments (copy_defined (Object_entries_rest inp) []) now"
    have f: "?f = merged_document now inp"
      using True by (auto simp: set_TextbookDocuments_merged)
    have found: "List.find ?P (TextbookDocuments s) = Some d"
      using owned by (simp add: owned_document_find)
    have rows: "first (map ?f (filter ?P (TextbookDocuments s))) = Some (?f d)"
      by (simp add: first_map first_filter found)
    have docs: "map (\<lambda>x. if ?P x then merged_document now inp x else x) (TextbookDocuments s) =
          map (\<lambda>x. if x = d then merged_document now inp d else x) (TextbookDocuments s)"
      by (rule map_only_row [where key = d_id]) (use assms in auto)
    have "db_update ?P ?f (TextbookDocuments s) =
            ([merged_document now inp d] @ tl (map ?f (filter ?P (TextbookDocuments s))),
             map (\<lambda>x. if x = d then merged_document now inp d else x) (TextbookDocuments s))"
      using rows docs unfolding db_update_def f
      by (cases "filter ?P (TextbookDocuments s)") (simp_all add: first_def)
    then show ?thesis
      using True owned assms(1)
      by (simp add: updateDocument_def updateData_empty Let_def first_def)
  qed
qed

theorem updateDocument_partial_merge_witness:
  "updateDocument 99
     \<lparr>ud_id = 1, ud_title = Some ''Mechanics'', ud_description = None, ud_subject = None,
      ud_gradeLevel = None, ud_board = Some ''CBSE'', ud_sourceType = None,
      ud_sourceMeta = None\<rparr> (signed_in alice) library =
   (Inr (Some (chapter2\<lparr>d_title := ''Mechanics'', d_board := Some ''CBSE'',
                         d_updatedAt := 99\<rparr>)),
    library\<lparr>TextbookDocuments :=
      [chapter2\<lparr>d_title := ''Mechanics'', d_board := Some ''CBSE'', d_updatedAt := 99\<rparr>,
       bobs_notes]\<rparr>)"
proof -
  let ?inp = "\<lparr>ud_id = 1, ud_title = Some ''Mechanics'', ud_description = None,
      ud_subject = None, ud_gradeLevel = None, ud_board = Some ''CBSE'',
      ud_sourceType = None, ud_sourceMeta = None\<rparr>"
  have "requireUser (signed_in alice) = Inr alice"
    by (rule requireUser_signed_in)
  moreover have "distinct (map d_id (TextbookDocuments library))"
    by (simp add: library_def chapter2_def bobs_notes_def)
  moreover have "chapter2 \<in> set (TextbookDocuments library)"
    by (simp add: library_def)
  moreover have "d_ownerId chapter2 = u_id alice"
    by (simp add: chapter2_def alice_def)
  moreover have "ud_id ?inp = d_id chapter2"
    by (simp add: chapter2_def)
  ultimately have "updateDocument 99 ?inp (signed_in alice) library =
      (Inr (Some (merged_document 99 ?inp chapter2)),
       library\<lparr>TextbookDocuments :=
         map (\<lambda>r. if r = chapter2 then merged_document 99 ?inp chapter2 else r)
           (TextbookDocuments library)\<rparr>)"
    by (rule updateDocument_partial_merge)
  moreover have "merged_document 99 ?inp chapter2 =
      chapter2\<lparr>d_title := ''Mechanics'', d_board := Some ''CBSE'', d_updatedAt := 99\<rparr>"
    by (simp add: merged_document_def any_field_supplied_def or_default_def
        keep_or_overwrite_def chapter2_def)
  moreover have "bobs_notes \<noteq> chapter2"
    by (simp add: chapter2_def bobs_notes_def)
  moreover have "TextbookDocuments library = [chapter2, bobs_notes]"
    by (simp add: library_def)
  ultimately show ?thesis by simp
qed

section \<open>savePage\<close>

lemma alice_owns_chapter2: "owned_document alice 1 library = Some chapter2"
  by (simp add: owned_document_find library_def chapter2_def alice_def)

lemma library_page_ids: "distinct (map p_id (TextbookPages library))"
  by (simp add: library_def page1_def bobs_page_def)

lemma page_by_id_unique:
  assumes "distinct (map p_id (TextbookPages s))" and "p \<in> set (TextbookPages s)"
  shows "first (limit 1 (db_select (\<lambda>r. Some (p_id r) = Some (p_id p)) (TextbookPages s))) = Some p"
  unfolding first_limit_select
  by (rule find_unique_key [where key = p_id]) (use assms in auto)

lemma owned_document_exists:
  assumes "owned_document u i s = Some document"
  shows "i \<in> set (map d_id (TextbookDocuments s))"
  using assms unfolding owned_document_find by (auto simp: find_Some_iff)

lemma savePage_document_not_owned:
  assumes "requireUser ctx = Inr u" and "owned_document u (sp_documentId inp) s = None"
  shows "savePage now inp ctx s = (Inl (ActionError NOT_FOUND ''Document not found.''), s)"
  using assms by (simp add: savePage_def)

lemma insert_page_of_owned_document:
  assumes "owned_document u (pv_documentId v) s = Some document"
  shows "insert_TextbookPages now v s =
     Some ([page_row now (next_id (map p_id (TextbookPages s)) (seq_TextbookPages s)) v],
           s\<lparr>TextbookPages := TextbookPages s @
                  [page_row now (next_id (map p_id (TextbookPages s)) (seq_TextbookPages s)) v],
              seq_TextbookPages := next_id (map p_id (TextbookPages s)) (seq_TextbookPages s)\<rparr>)"
  using owned_document_exists [OF assms]
  by (simp add: insert_TextbookPages_def Let_def page_references_def refers_to_def page_row_def)

lemma set_TextbookPages_resaved:
  assumes "p_documentId p = sp_documentId inp"
  shows "set_TextbookPages
     \<lparr>pv_documentId = sp_documentId inp,
      pv_pageNumber = Some (or_default (sp_pageNumber inp) 1),
      pv_imageUrl = sp_imageUrl inp, pv_ocrText = sp_ocrText inp,
      pv_ocrBlocks = sp_ocrBlocks inp,
      pv_createdAt = Some now, pv_updatedAt = Some now\<rparr> p = resaved_page now inp p"
  using assms
  by (cases p) (simp add: set_TextbookPages_def resaved_page_def or_default_def
      keep_or_overwrite_def split: option.splits)

lemma alice_owns_nothing_of_bob: "owned_document alice 2 library = None"
  by (simp add: owned_document_find library_def chapter2_def bobs_notes_def alice_def)

text \<open>
  C6, as stated: an update by savePage overwrites every writable field, an omitted
  optional field emptying the stored value. The update of page 1 below omits imageUrl
  and ocrBlocks; the stored imageUrl is still there afterwards.
\<close>

theorem savePage_keeps_omitted_counterexample:
  "savePage 20
     \<lparr>sp_id = Some 1, sp_documentId = 1, sp_pageNumber = None, sp_imageUrl = None,
      sp_ocrText = Some ''Laws of motion'', sp_ocrBlocks = None\<rparr> (signed_in alice) library =
   (Inr (Some \<lparr>p_id = 1, p_documentId = 1, p_pageNumber = 1,
               p_imageUrl = Some ''https://img/4.png'',
               p_ocrText = Some ''Laws of motion'', p_ocrBlocks = None,
               p_createdAt = 20, p_updatedAt = 20\<rparr>),
    library\<lparr>TextbookPages :=
      [\<lparr>p_id = 1, p_documentId = 1, p_pageNumber = 1,
        p_imageUrl = Some ''https://img/4.png'',
        p_ocrText = Some ''Laws of motion'', p_ocrBlocks = None,
        p_createdAt = 20, p_updatedAt = 20\<rparr>, bobs_page]\<rparr>) \<and>
   page1 \<in> set (TextbookPages library) \<and> p_id page1 = 1 \<and> p_documentId page1 = 1 \<and>
   p_imageUrl page1 = Some ''https://img/4.png''"
  by (simp add: savePage_def requireUser_signed_in owned_document_def Let_def truthy_def
      update_TextbookPages_def set_TextbookPages_def page_references_def refers_to_def
      keep_or_overwrite_def gateway_defs library_def page1_def bobs_page_def chapter2_def
      bobs_notes_def alice_def)

text \<open>
  C6, amended. When savePage is called by a signed-in owner of the document with the
  non-zero id of an existing page belonging to the supplied documentId, pageNumber is
  overwritten with the supplied value, or with 1 when omitted, and both timestamps are
  set to the current time; each of imageUrl, ocrText and ocrBlocks is overwritten when it
  is supplied and keeps its stored value when it is omitted. No other page changes.
\<close>

theorem savePage_update_row:
  assumes "requireUser ctx = Inr u"
    and "owned_document u (sp_documentId inp) s = Some document"
    and "distinct (map p_id (TextbookPages s))"
    and "p \<in> set (TextbookPages s)" and "p_documentId p = sp_documentId inp"
    and "sp_id inp = Some (p_id p)" and "p_id p \<noteq> 0"
  shows "savePage now inp ctx s =
           (Inr (Some (resaved_page now inp p)),
            s\<lparr>TextbookPages :=
                map (\<lambda>r. if r = p then resaved_page now inp p else r) (TextbookPages s)\<rparr>)"
proof -
  let ?P = "\<lambda>r. Some (p_id r) = sp_id inp"
  let ?base = "\<lparr>pv_documentId = sp_documentId inp,
      pv_pageNumber = Some (or_default (sp_pageNumber inp) 1),
      pv_imageUrl = sp_imageUrl inp, pv_ocrText = sp_ocrText inp,
      pv_ocrBlocks = sp_ocrBlocks inp,
      pv_createdAt = Some now, pv_updatedAt = Some now\<rparr>"
  let ?f = "set_TextbookPages ?base"
  have existing: "first (limit 1 (db_select ?P (TextbookPages s))) = Some p"
    using page_by_id_unique [OF assms(3,4)] assms(6) by simp
  then have found: "List.find ?P (TextbookPages s) = Some p"
    by (simp only: first_limit_select)
  have f: "?f p = resaved_page now inp p"
    using assms(5) by (rule set_TextbookPages_resaved)
  have refs: "list_all (page_references s) (map ?f (filter ?P (TextbookPages s)))"
    using owned_document_exists [OF assms(2)]
    by (simp add: list_all_iff page_references_def refers_to_def set_TextbookPages_def)
  have rows: "first (map ?f (filter ?P (TextbookPages s))) = Some (?f p)"
    by (simp add: first_map first_filter found)
  have pages: "map (\<lambda>x. if ?P x then ?f x else x) (TextbookPages s) =
          map (\<lambda>x. if x = p then ?f p else x) (TextbookPages s)"
    by (rule map_only_row [where key = p_id]) (use assms in auto)
  have "update_TextbookPages ?P ?f s =
          Some (map ?f (filter ?P (TextbookPages s)),
                s\<lparr>TextbookPages := map (\<lambda>x. if x = p then ?f p else x) (TextbookPages s)\<rparr>)"
    using refs pages by (simp add: update_TextbookPages_def db_update_def)
  then show ?thesis
    using assms(1,2,5,6,7) existing rows unfolding f
    by (simp add: savePage_def Let_def truthy_def)
qed

theorem savePage_update_row_witness:
  "savePage 21
     \<lparr>sp_id = Some 1, sp_documentId = 1, sp_pageNumber = Some 5,
      sp_imageUrl = Some ''https://img/5.png'', sp_ocrText = None, sp_ocrBlocks = None\<rparr>
     (signed_in alice) library =
   (Inr (Some \<lparr>p_id = 1, p_documentId = 1, p_pageNumber = 5,
               p_imageUrl = Some ''https://img/5.png'', p_ocrText = Some ''Newton'',
               p_ocrBlocks = None, p_createdAt = 21, p_updatedAt = 21\<rparr>),
    library\<lparr>TextbookPages :=
      [\<lparr>p_id = 1, p_documentId = 1, p_pageNumber = 5,
        p_imageUrl = Some ''https://img/5.png'', p_ocrText = Some ''Newton'',
        p_ocrBlocks = None, p_createdAt = 21, p_updatedAt = 21\<rparr>, bobs_page]\<rparr>)"
proof -
  let ?inp = "\<lparr>sp_id = Some 1, sp_documentId = 1, sp_pageNumber = Some 5,
      sp_imageUrl = Some ''https://img/5.png'', sp_ocrText = None, sp_ocrBlocks = None\<rparr>"
  have "requireUser (signed_in alice) = Inr alice"
    by (rule requireUser_signed_in)
  moreover have "owned_document alice (sp_documentId ?inp) library = Some chapter2"
    using alice_owns_chapter2 by simp
  moreover note library_page_ids
  moreover have "page1 \<in> set (TextbookPages library)"
    by (simp add: library_def)
  moreover have "p_documentId page1 = sp_documentId ?inp"
    by (simp add: page1_def)
  moreover have "sp_id ?inp = Some (p_id page1)"
    by (simp add: page1_def)
  moreover have "p_id page1 \<noteq> 0"
    by (simp add: page1_def)
  ultimately have "savePage 21 ?inp (signed_in alice) library =
      (Inr (Some (resaved_page 21 ?inp page1)),
       library\<lparr>TextbookPages :=
         map (\<lambda>r. if r = page1 then resaved_page 21 ?inp page1 else r)
           (TextbookPages library)\<rparr>)"
    by (rule savePage_update_row)
  moreover have "resaved_page 21 ?inp page1 =
      \<lparr>p_id = 1, p_documentId = 1, p_pageNumber = 5,
       p_imageUrl = Some ''https://img/5.png'', p_ocrText = Some ''Newton'',
       p_ocrBlocks = None, p_createdAt = 21, p_updatedAt = 21\<rparr>"
    by (simp add: resaved_page_def page1_def)
  moreover have "bobs_page \<noteq> page1"
    by (simp add: page1_def bobs_page_def)
  moreover have "TextbookPages library = [page1, bobs_page]"
    by (simp add: library_def)
  ultimately show ?thesis by simp
qed

text \<open>
  C8, as stated: whenever the page of a supplied non-zero id exists with another
  documentId, savePage fails with NOT_FOUND and the message "Page not found.". Page 1
  exists and belongs to document 1; saving it under document 2, which the caller does
  not own, fails at the ownership check with the message "Document not found.".
\<close>

theorem savePage_unowned_document_counterexample:
  "savePage 20
     \<lparr>sp_id = Some 1, sp_documentId = 2, sp_pageNumber = None, sp_imageUrl = None,
      sp_ocrText = None, sp_ocrBlocks = None\<rparr> (signed_in alice) library =
     (Inl (ActionError NOT_FOUND ''Document not found.''), library) \<and>
   page1 \<in> set (TextbookPages library) \<and> p_id page1 = 1 \<and> p_documentId page1 \<noteq> 2"
  using alice_owns_nothing_of_bob
  by (simp add: savePage_def requireUser_signed_in library_def page1_def)

text \<open>
  C8, amended. For every savePage call by a signed-in user with a non-zero id supplied:
  if a page with that id exists but its documentId differs from the supplied documentId,
  the call fails with NOT_FOUND and writes nothing, even though the page exists. The
  message is "Page not found." when the caller owns the supplied document, and
  "Document not found." when not.
\<close>

theorem savePage_page_of_other_document:
  assumes "requireUser ctx = Inr u"
    and "distinct (map p_id (TextbookPages s))"
    and "p \<in> set (TextbookPages s)" and "p_documentId p \<noteq> sp_documentId inp"
    and "sp_id inp = Some (p_id p)" and "p_id p \<noteq> 0"
  shows "savePage now inp ctx s =
           (Inl (ActionError NOT_FOUND
                  (if owned_document u (sp_documentId inp) s = None
                   then ''Document not found.'' else ''Page not found.'')), s)"
proof (cases "owned_document u (sp_documentId inp) s")
  case None
  with assms(1) show ?thesis by (simp add: savePage_def)
next
  case (Some document)
  have "first (limit 1 (db_select (\<lambda>r. Some (p_id r) = sp_id inp) (TextbookPages s))) = Some p"
    using page_by_id_unique [OF assms(2,3)] assms(5) by simp
  then show ?thesis
    using assms(1,4,5,6) Some by (simp add: savePage_def Let_def truthy_def)
qed

theorem savePage_page_of_other_document_witness:
  "savePage 20
     \<lparr>sp_id = Some 2, sp_documentId = 1, sp_pageNumber = Some 7, sp_imageUrl = None,
      sp_ocrText = None, sp_ocrBlocks = None\<rparr> (signed_in alice) library =
   (Inl (ActionError NOT_FOUND ''Page not found.''), library)"
proof -
  let ?inp = "\<lparr>sp_id = Some 2, sp_documentId = 1, sp_pageNumber = Some 7, sp_imageUrl = None,
      sp_ocrText = None, sp_ocrBlocks = None\<rparr>"
  have "requireUser (signed_in alice) = Inr alice"
    by (rule requireUser_signed_in)
  moreover note library_page_ids
  moreover have "bobs_page \<in> set (TextbookPages library)"
    by (simp add: library_def)
  moreover have "p_documentId bobs_page \<noteq> sp_documentId ?inp"
    by (simp add: bobs_page_def)
  moreover have "sp_id ?inp = Some (p_id bobs_page)"
    by (simp add: bobs_page_def)
  moreover have "p_id bobs_page \<noteq> 0"
    by (simp add: bobs_page_def)
  ultimately have "savePage 20 ?inp (signed_in alice) library =
      (Inl (ActionError NOT_FOUND
             (if owned_document alice (sp_documentId ?inp) library = None
              then ''Document not found.'' else ''Page not found.'')), library)"
    by (rule savePage_page_of_other_document)
  then show ?thesis
    using alice_owns_chapter2 by simp
qed

text \<open>
  C10. A savePage call whose id is 0 never takes the update branch: it behaves in every
  respect as the call with no id, it cannot fail with "Page not found.", and for a
  signed-in owner of the document it inserts a new page under a fresh key.
\<close>

theorem savePage_id_zero_inserts:
  "savePage now (inp\<lparr>sp_id := Some 0\<rparr>) ctx s = savePage now (inp\<lparr>sp_id := None\<rparr>) ctx s \<and>
   fst (savePage now (inp\<lparr>sp_id := Some 0\<rparr>) ctx s) \<noteq>
     Inl (ActionError NOT_FOUND ''Page not found.'') \<and>
   (\<forall>u document. requireUser ctx = Inr u \<and>
        owned_document u (sp_documentId inp) s = Some document \<longrightarrow>
      savePage now (inp\<lparr>sp_id := Some 0\<rparr>) ctx s =
        (let row = replaced_page now inp
                     (next_id (map p_id (TextbookPages s)) (seq_TextbookPages s))
         in (Inr (Some row),
             s\<lparr>TextbookPages := TextbookPages s @ [row], seq_TextbookPages := p_id row\<rparr>)))"
proof (intro conjI allI impI)
  show "savePage now (inp\<lparr>sp_id := Some 0\<rparr>) ctx s = savePage now (inp\<lparr>sp_id := None\<rparr>) ctx s"
    by (auto simp: savePage_def Let_def truthy_def split: sum.splits option.splits)
  show "fst (savePage now (inp\<lparr>sp_id := Some 0\<rparr>) ctx s) \<noteq>
     Inl (ActionError NOT_FOUND ''Page not found.'')"
    by (auto simp: savePage_def Let_def truthy_def requireUser_def
        split: sum.splits option.splits)
next
  fix u document
  assume a: "requireUser ctx = Inr u \<and> owned_document u (sp_documentId inp) s = Some document"
  let ?base = "\<lparr>pv_documentId = sp_documentId inp,
      pv_pageNumber = Some (or_default (sp_pageNumber inp) 1),
      pv_imageUrl = sp_imageUrl inp, pv_ocrText = sp_ocrText inp,
      pv_ocrBlocks = sp_ocrBlocks inp,
      pv_createdAt = Some now, pv_updatedAt = Some now\<rparr>"
  have "owned_document u (pv_documentId ?base) s = Some document"
    using a by simp
  note ins = insert_page_of_owned_document [OF this, of now]
  have "page_row now i ?base = replaced_page now inp i" for i
    by (simp add: page_row_def replaced_page_def or_default_def)
  with ins a show "savePage now (inp\<lparr>sp_id := Some 0\<rparr>) ctx s =
        (let row = replaced_page now inp
                     (next_id (map p_id (TextbookPages s)) (seq_TextbookPages s))
         in (Inr (Some row),
             s\<lparr>TextbookPages := TextbookPages s @ [row], seq_TextbookPages := p_id row\<rparr>))"
    by (simp add: savePage_def Let_def truthy_def first_def replaced_page_def)
qed

theorem savePage_id_zero_inserts_witness:
  "savePage 20
     \<lparr>sp_id = Some 0, sp_documentId = 1, sp_pageNumber = Some 5, sp_imageUrl = None,
      sp_ocrText = Some ''Momentum'', sp_ocrBlocks = None\<rparr> (signed_in alice) library =
   (Inr (Some \<lparr>p_id = 3, p_documentId = 1, p_pageNumber = 5, p_imageUrl = None,
               p_ocrText = Some ''Momentum'', p_ocrBlocks = None,
               p_createdAt = 20, p_updatedAt = 20\<rparr>),
    library\<lparr>TextbookPages :=
      [page1, bobs_page,
       \<lparr>p_id = 3, p_documentId = 1, p_pageNumber = 5, p_imageUrl = None,
        p_ocrText = Some ''Momentum'', p_ocrBlocks = None,
        p_createdAt = 20, p_updatedAt = 20\<rparr>],
      seq_TextbookPages := 3\<rparr>)"
proof -
  let ?inp = "\<lparr>sp_id = Some 0, sp_documentId = 1, sp_pageNumber = Some 5, sp_imageUrl = None,
      sp_ocrText = Some ''Momentum'', sp_ocrBlocks = None\<rparr>"
  have user: "requireUser (signed_in alice) = Inr alice"
    by (rule requireUser_signed_in)
  have owned: "owned_document alice (sp_documentId ?inp) library = Some chapter2"
    using alice_owns_chapter2 by simp
  have "savePage 20 (?inp\<lparr>sp_id := Some 0\<rparr>) (signed_in alice) library =
      (let row = replaced_page 20 ?inp
                   (next_id (map p_id (TextbookPages library)) (seq_TextbookPages library))
       in (Inr (Some row),
           library\<lparr>TextbookPages := TextbookPages library @ [row],
                   seq_TextbookPages := p_id row\<rparr>))"
    using savePage_id_zero_inserts [of 20 ?inp "signed_in alice" library] user owned
    by blast
  moreover have "next_id (map p_id (TextbookPages library)) (seq_TextbookPages library) = 3"
    by (simp add: next_id_def library_def page1_def bobs_page_def)
  moreover have "TextbookPages library = [page1, bobs_page]"
    by (simp add: library_def)
  ultimately show ?thesis
    by (simp add: replaced_page_def Let_def)
qed

section \<open>deletePage and deleteHighlight\<close>

lemma db_delete_again:
  "db_delete P (snd (db_delete P rows)) = ([], snd (db_delete P rows))"
  by (simp add: db_delete_def)

lemma owned_document_pages_update [simp]:
  "owned_document u i (s\<lparr>TextbookPages := ps\<rparr>) = owned_document u i s"
  by (simp add: owned_document_def)

lemma owned_document_highlights_update [simp]:
  "owned_document u i (s\<lparr>TextbookHighlights := hs\<rparr>) = owned_document u i s"
  by (simp add: owned_document_def)

lemma delete_TextbookPages_Some:
  assumes "delete_TextbookPages P s = Some (rows, s')"
  shows "s' = s\<lparr>TextbookPages := filter (\<lambda>r. \<not> P r) (TextbookPages s)\<rparr>"
  using assms by (auto simp: delete_TextbookPages_def db_delete_def split: if_splits)

lemma delete_TextbookPages_again:
  "delete_TextbookPages P (s\<lparr>TextbookPages := filter (\<lambda>r. \<not> P r) (TextbookPages s)\<rparr>) =
     Some ([], s\<lparr>TextbookPages := filter (\<lambda>r. \<not> P r) (TextbookPages s)\<rparr>)"
  by (simp add: delete_TextbookPages_def db_delete_def)

lemma deletePage_again:
  assumes "deletePage inp ctx s = (Inr deleted, s')"
  shows "deletePage inp ctx s' = (Inl (ActionError NOT_FOUND ''Page not found.''), s')"
proof -
  obtain u where u: "requireUser ctx = Inr u"
    using assms by (cases "requireUser ctx") (auto simp: deletePage_def)
  obtain document where d: "owned_document u (dp_documentId inp) s = Some document"
    using assms u by (cases "owned_document u (dp_documentId inp) s") (auto simp: deletePage_def)
  let ?P = "\<lambda>p. p_id p = dp_id inp \<and> p_documentId p = dp_documentId inp"
  obtain rows where "delete_TextbookPages ?P s = Some (rows, s')"
    using assms u d by (auto simp: deletePage_def split: option.splits)
  then have s': "s' = s\<lparr>TextbookPages := filter (\<lambda>r. \<not> ?P r) (TextbookPages s)\<rparr>"
    by (rule delete_TextbookPages_Some)
  have again: "delete_TextbookPages ?P s' = Some ([], s')"
    unfolding s' by (rule delete_TextbookPages_again)
  have "owned_document u (dp_documentId inp) s' = Some document"
    unfolding s' using d by simp
  with u again show ?thesis
    by (simp add: deletePage_def first_def)
qed

lemma deleteHighlight_again:
  assumes "deleteHighlight inp ctx s = (Inr deleted, s')"
  shows "deleteHighlight inp ctx s' = (Inl (ActionError NOT_FOUND ''Highlight not found.''), s')"
proof -
  obtain u where u: "requireUser ctx = Inr u"
    using assms by (cases "requireUser ctx") (auto simp: deleteHighlight_def)
  obtain document where d: "owned_document u (dh_documentId inp) s = Some document"
    using assms u
    by (cases "owned_document u (dh_documentId inp) s") (auto simp: deleteHighlight_def)
  let ?P = "\<lambda>h. h_id h = dh_id inp \<and> h_documentId h = dh_documentId inp"
  have s': "s' = s\<lparr>TextbookHighlights := snd (db_delete ?P (TextbookHighlights s))\<rparr>"
    using assms u d by (auto simp: deleteHighlight_def split: prod.splits option.splits)
  show ?thesis
    unfolding s' using u d
    by (simp add: deleteHighlight_def db_delete_again first_def)
qed

text \<open>
  C9. After a successful deletePage (respectively deleteHighlight) call, a second call
  with the same arguments fails with NOT_FOUND instead of silently succeeding, and the
  failing call leaves the store as the first call left it.
\<close>

theorem delete_twice_not_found:
  "(deletePage pinp ctx s = (Inr page, s') \<longrightarrow>
      deletePage pinp ctx s' = (Inl (ActionError NOT_FOUND ''Page not found.''), s')) \<and>
   (deleteHighlight hinp ctx s = (Inr highlight, s'') \<longrightarrow>
      deleteHighlight hinp ctx s'' = (Inl (ActionError NOT_FOUND ''Highlight not found.''), s''))"
  using deletePage_again deleteHighlight_again by blast

lemma alice_owns_chapter2_spare: "owned_document alice 1 library_with_spare = Some chapter2"
  by (simp add: owned_document_find library_with_spare_def library_def chapter2_def alice_def)

theorem delete_twice_not_found_witness:
  "deletePage \<lparr>dp_id = 3, dp_documentId = 1\<rparr> (signed_in alice) library_with_spare =
     (Inr spare_page, library_with_spare\<lparr>TextbookPages := [page1, bobs_page]\<rparr>) \<and>
   deletePage \<lparr>dp_id = 3, dp_documentId = 1\<rparr> (signed_in alice)
       (library_with_spare\<lparr>TextbookPages := [page1, bobs_page]\<rparr>) =
     (Inl (ActionError NOT_FOUND ''Page not found.''),
      library_with_spare\<lparr>TextbookPages := [page1, bobs_page]\<rparr>) \<and>
   deleteHighlight \<lparr>dh_id = 1, dh_documentId = 1\<rparr> (signed_in alice) library =
     (Inr formula, library\<lparr>TextbookHighlights := []\<rparr>) \<and>
   deleteHighlight \<lparr>dh_id = 1, dh_documentId = 1\<rparr> (signed_in alice)
       (library\<lparr>TextbookHighlights := []\<rparr>) =
     (Inl (ActionError NOT_FOUND ''Highlight not found.''),
      library\<lparr>TextbookHighlights := []\<rparr>)"
proof -
  have page: "deletePage \<lparr>dp_id = 3, dp_documentId = 1\<rparr> (signed_in alice) library_with_spare =
     (Inr spare_page, library_with_spare\<lparr>TextbookPages := [page1, bobs_page]\<rparr>)"
    by (simp add: deletePage_def requireUser_signed_in owned_document_def
        delete_TextbookPages_def page_referenced_def gateway_defs
        library_with_spare_def library_def chapter2_def bobs_notes_def page1_def
        bobs_page_def spare_page_def formula_def ocr_job_def alice_def)
  have highlight: "deleteHighlight \<lparr>dh_id = 1, dh_documentId = 1\<rparr> (signed_in alice) library =
     (Inr formula, library\<lparr>TextbookHighlights := []\<rparr>)"
    using alice_owns_chapter2
    by (simp add: deleteHighlight_def requireUser_signed_in db_delete_def first_def)
       (simp add: library_def formula_def)
  from page
    delete_twice_not_found [of "\<lparr>dp_id = 3, dp_documentId = 1\<rparr>" "signed_in alice"
      library_with_spare spare_page "library_with_spare\<lparr>TextbookPages := [page1, bobs_page]\<rparr>"]
  have "deletePage \<lparr>dp_id = 3, dp_documentId = 1\<rparr> (signed_in alice)
       (library_with_spare\<lparr>TextbookPages := [page1, bobs_page]\<rparr>) =
     (Inl (ActionError NOT_FOUND ''Page not found.''),
      library_with_spare\<lparr>TextbookPages := [page1, bobs_page]\<rparr>)"
    by blast
  moreover from highlight
    delete_twice_not_found [of _ "signed_in alice" library _ _
      "\<lparr>dh_id = 1, dh_documentId = 1\<rparr>" formula "library\<lparr>TextbookHighlights := []\<rparr>"]
  have "deleteHighlight \<lparr>dh_id = 1, dh_documentId = 1\<rparr>
       (signed_in alice) (library\<lparr>TextbookHighlights := []\<rparr>) =
     (Inl (ActionError NOT_FOUND ''Highlight not found.''),
      library\<lparr>TextbookHighlights := []\<rparr>)"
    by blast
  ultimately show ?thesis
    using page highlight by (intro conjI)
qed

section \<open>createScanJob\<close>

lemma find_None_list_ex: "List.find P rows = None \<longleftrightarrow> \<not> list_ex P rows"
  by (auto simp: find_None_iff list_ex_iff)

lemma document_lookup_None:
  "first (limit 1 (db_select (\<lambda>d. Some (d_id d) = Some i \<and> d_ownerId d = u_id u)
      (TextbookDocuments s))) = None \<longleftrightarrow> \<not> owns_document u i s"
  unfolding first_limit_select by (simp add: find_None_list_ex owns_document_def)

lemma page_lookup_None:
  "first (limit 1 (db_select (\<lambda>p. Some (p_id p) = Some i) (TextbookPages s))) = None
     \<longleftrightarrow> \<not> page_exists i s"
  unfolding first_limit_select by (simp add: find_None_list_ex page_exists_def)

lemma document_guard:
  "(truthy (cj_documentId inp) \<and>
    first (limit 1 (db_select (\<lambda>d. Some (d_id d) = cj_documentId inp \<and> d_ownerId d = u_id u)
      (TextbookDocuments s))) = None)
     \<longleftrightarrow> \<not> document_guard_passes u inp s"
  using document_lookup_None [of _ u s]
  by (cases "cj_documentId inp") (auto simp: truthy_def document_guard_passes_def)

lemma page_guard:
  "(truthy (cj_pageId inp) \<and>
    first (limit 1 (db_select (\<lambda>p. Some (p_id p) = cj_pageId inp) (TextbookPages s))) = None)
     \<longleftrightarrow> \<not> page_guard_passes inp s"
  using page_lookup_None [of _ s]
  by (cases "cj_pageId inp") (auto simp: truthy_def page_guard_passes_def)

lemma insert_ScanJobs_new_job:
  "insert_ScanJobs now
     \<lparr>jv_documentId = cj_documentId inp, jv_pageId = cj_pageId inp,
      jv_userId = Some (u_id u),
      jv_jobType = Some (or_default (cj_jobType inp) Full_pipeline),
      jv_input = cj_input inp, jv_output = cj_output inp,
      jv_status = Some (or_default (cj_status inp) Pending),
      jv_createdAt = Some now\<rparr> s =
   (if job_references_hold inp s
    then Some ([new_job now u inp s], with_job (new_job now u inp s) s) else None)"
  by (simp add: insert_ScanJobs_def job_row_def new_job_def with_job_def or_default_def Let_def
      job_references_def job_references_hold_def)

lemma createScanJob_cases:
  assumes "requireUser ctx = Inr u"
  shows "createScanJob now inp ctx s =
     (if \<not> document_guard_passes u inp s
      then (Inl (ActionError NOT_FOUND ''Document not found.''), s)
      else if \<not> page_guard_passes inp s
      then (Inl (ActionError NOT_FOUND ''Page not found.''), s)
      else if \<not> job_references_hold inp s
      then (Inl ConstraintFailed, s)
      else (Inr (Some (new_job now u inp s)), with_job (new_job now u inp s) s))"
  unfolding createScanJob_def assms sum.case document_guard page_guard insert_ScanJobs_new_job
  by (simp add: first_def)





lemma library_next_job: "next_id (map j_id (ScanJobs library)) (seq_ScanJobs library) = 2"
  by (simp add: next_id_def library_def ocr_job_def)

text \<open>
  C2, as stated: the ScanJobs schema declares pending as the default of the status
  column. The declared default is completed: a row inserted without a status is stored
  as completed.
\<close>

theorem ScanJobs_status_default_counterexample:
  "ScanJobs_status_default \<noteq> Pending \<and>
   map_option fst (insert_ScanJobs 7
          \<lparr>jv_documentId = None, jv_pageId = None, jv_userId = Some ''alice'',
           jv_jobType = None, jv_input = None, jv_output = None, jv_status = None,
           jv_createdAt = None\<rparr> empty_store) =
     Some [\<lparr>j_id = 1, j_documentId = None, j_pageId = None, j_userId = Some ''alice'',
       j_jobType = Full_pipeline, j_input = None, j_output = None, j_status = Completed,
       j_createdAt = 7\<rparr>]"
  by (simp add: ScanJobs_status_default_def ScanJobs_jobType_default_def insert_ScanJobs_def
      job_row_def next_id_def or_default_def empty_store_def Let_def job_references_def
      refers_to_def)

text \<open>
  C2, amended. A createScanJob call in which status is omitted, made by a signed-in user,
  passing both guards and naming only existing rows, inserts a job whose status is
  pending. That default is written by the handler itself; the schema's own default for
  the status column is completed.
\<close>

theorem createScanJob_status_omitted_pending:
  assumes "requireUser ctx = Inr u"
    and "document_guard_passes u inp s" and "page_guard_passes inp s"
    and "job_references_hold inp s"
    and "cj_status inp = None"
  shows "createScanJob now inp ctx s =
           (Inr (Some (new_job now u inp s)), with_job (new_job now u inp s) s) \<and>
         j_status (new_job now u inp s) = Pending \<and>
         new_job now u inp s \<in> set (ScanJobs (with_job (new_job now u inp s) s)) \<and>
         ScanJobs_status_default = Completed"
  using assms
  by (simp add: createScanJob_cases new_job_def with_job_def ScanJobs_status_default_def)

theorem createScanJob_status_omitted_pending_witness:
  "createScanJob 30
     \<lparr>cj_documentId = None, cj_pageId = None, cj_jobType = Some Highlight_extraction,
      cj_input = Some (JStr ''page 4''), cj_output = None, cj_status = None\<rparr>
     (signed_in alice) library =
   (Inr (Some \<lparr>j_id = 2, j_documentId = None, j_pageId = None, j_userId = Some ''alice'',
               j_jobType = Highlight_extraction, j_input = Some (JStr ''page 4''),
               j_output = None, j_status = Pending, j_createdAt = 30\<rparr>),
    library\<lparr>ScanJobs :=
      [ocr_job,
       \<lparr>j_id = 2, j_documentId = None, j_pageId = None, j_userId = Some ''alice'',
        j_jobType = Highlight_extraction, j_input = Some (JStr ''page 4''),
        j_output = None, j_status = Pending, j_createdAt = 30\<rparr>],
      seq_ScanJobs := 2\<rparr>)"
proof -
  let ?inp = "\<lparr>cj_documentId = None, cj_pageId = None, cj_jobType = Some Highlight_extraction,
      cj_input = Some (JStr ''page 4''), cj_output = None, cj_status = None\<rparr>"
  have "requireUser (signed_in alice) = Inr alice"
    by (rule requireUser_signed_in)
  moreover have "document_guard_passes alice ?inp library"
    by (simp add: document_guard_passes_def)
  moreover have "page_guard_passes ?inp library"
    by (simp add: page_guard_passes_def)
  moreover have "job_references_hold ?inp library"
    by (simp add: job_references_hold_def refers_to_def)
  moreover have "cj_status ?inp = None"
    by simp
  ultimately have "createScanJob 30 ?inp (signed_in alice) library =
      (Inr (Some (new_job 30 alice ?inp library)), with_job (new_job 30 alice ?inp library) library)"
    using createScanJob_status_omitted_pending [of "signed_in alice" alice ?inp library 30]
    by blast
  moreover have "new_job 30 alice ?inp library =
      \<lparr>j_id = 2, j_documentId = None, j_pageId = None, j_userId = Some ''alice'',
       j_jobType = Highlight_extraction, j_input = Some (JStr ''page 4''),
       j_output = None, j_status = Pending, j_createdAt = 30\<rparr>"
    by (simp add: new_job_def library_next_job alice_def)
  moreover have "ScanJobs library = [ocr_job]"
    by (simp add: library_def)
  ultimately show ?thesis
    by (simp add: with_job_def)
qed




section \<open>Every operation keeps the store consistent\<close>

lemma fold_max_ge_start: "(a::int) \<le> fold max xs a"
proof (induction xs arbitrary: a)
  case Nil
  then show ?case by simp
next
  case (Cons x xs)
  have "a \<le> max x a" by simp
  also have "\<dots> \<le> fold max xs (max x a)" by (rule Cons.IH)
  finally show ?case by simp
qed

lemma fold_max_ge_member: "x \<in> set xs \<Longrightarrow> (x::int) \<le> fold max xs a"
proof (induction xs arbitrary: a)
  case Nil
  then show ?case by simp
next
  case (Cons y ys)
  show ?case
  proof (cases "x = y")
    case True
    have "x \<le> max y a" using True by simp
    also have "\<dots> \<le> fold max ys (max y a)" by (rule fold_max_ge_start)
    finally show ?thesis by simp
  next
    case False
    with Cons.prems have "x \<in> set ys" by simp
    then show ?thesis using Cons.IH by simp
  qed
qed

lemma next_id_fresh: "next_id ids seq \<notin> set ids"
proof
  assume "next_id ids seq \<in> set ids"
  then have "next_id ids seq \<le> fold max ids seq" by (rule fold_max_ge_member)
  then show False by (simp add: next_id_def)
qed

lemma next_id_positive: "0 \<le> seq \<Longrightarrow> 0 < next_id ids seq"
  using fold_max_ge_start [of seq ids] by (simp add: next_id_def)

lemma refers_to_mono: "refers_to keys v \<Longrightarrow> set keys \<subseteq> set keys' \<Longrightarrow> refers_to keys' v"
  by (auto simp: refers_to_def split: option.splits)

text \<open>The three parts of consistency, in terms of the key sets of documents and pages.\<close>

lemma consistent_iff:
  "consistent s \<longleftrightarrow>
     distinct (map d_id (TextbookDocuments s)) \<and> distinct (map p_id (TextbookPages s)) \<and>
     distinct (map h_id (TextbookHighlights s)) \<and> distinct (map j_id (ScanJobs s)) \<and>
     (\<forall>p\<in>set (TextbookPages s). page_references s p) \<and>
     (\<forall>h\<in>set (TextbookHighlights s). highlight_references s h) \<and>
     (\<forall>j\<in>set (ScanJobs s). job_references s j) \<and>
     0 \<le> seq_TextbookDocuments s \<and> 0 \<le> seq_TextbookPages s \<and>
     (\<forall>d\<in>set (TextbookDocuments s). 0 < d_id d) \<and>
     (\<forall>p\<in>set (TextbookPages s). 0 < p_id p)"
  by (auto simp: consistent_def primary_keys_def references_hold_def keys_positive_def
      list_all_iff)

lemma references_same_keys:
  assumes "set (map d_id (TextbookDocuments s')) = set (map d_id (TextbookDocuments s))"
    and "set (map p_id (TextbookPages s')) = set (map p_id (TextbookPages s))"
  shows "page_references s' = page_references s"
    and "highlight_references s' = highlight_references s"
    and "job_references s' = job_references s"
  using assms
  by (auto simp: page_references_def highlight_references_def job_references_def
      refers_to_def fun_eq_iff split: option.splits)

lemma references_more_keys:
  assumes "set (map d_id (TextbookDocuments s)) \<subseteq> set (map d_id (TextbookDocuments s'))"
    and "set (map p_id (TextbookPages s)) \<subseteq> set (map p_id (TextbookPages s'))"
  shows "page_references s p \<Longrightarrow> page_references s' p"
    and "highlight_references s h \<Longrightarrow> highlight_references s' h"
    and "job_references s j \<Longrightarrow> job_references s' j"
  using assms
  by (auto simp: page_references_def highlight_references_def job_references_def
      refers_to_def split: option.splits)

lemma consistent_add_document:
  assumes "consistent s"
    and "d_id row = next_id (map d_id (TextbookDocuments s)) (seq_TextbookDocuments s)"
  shows "consistent (s\<lparr>TextbookDocuments := TextbookDocuments s @ [row],
                        seq_TextbookDocuments := d_id row\<rparr>)"
proof -
  let ?s' = "s\<lparr>TextbookDocuments := TextbookDocuments s @ [row],
               seq_TextbookDocuments := d_id row\<rparr>"
  have fresh: "d_id row \<notin> set (map d_id (TextbookDocuments s))"
    unfolding assms(2) by (rule next_id_fresh)
  have pos: "0 < d_id row"
    unfolding assms(2) using assms(1) by (intro next_id_positive) (simp add: consistent_iff)
  have more: "set (map d_id (TextbookDocuments s)) \<subseteq> set (map d_id (TextbookDocuments ?s'))"
    "set (map p_id (TextbookPages s)) \<subseteq> set (map p_id (TextbookPages ?s'))"
    by auto
  show ?thesis
    unfolding consistent_iff [of ?s']
    using assms(1) fresh pos references_more_keys [OF more]
    by (auto simp: consistent_iff)
qed

lemma consistent_map_documents:
  assumes "consistent s" and "\<And>d. d_id (g d) = d_id d"
  shows "consistent (s\<lparr>TextbookDocuments := map g (TextbookDocuments s)\<rparr>)"
proof -
  let ?s' = "s\<lparr>TextbookDocuments := map g (TextbookDocuments s)\<rparr>"
  have ids: "map d_id (TextbookDocuments ?s') = map d_id (TextbookDocuments s)"
    using assms(2) by (simp add: comp_def)
  have same: "set (map d_id (TextbookDocuments ?s')) = set (map d_id (TextbookDocuments s))"
    "set (map p_id (TextbookPages ?s')) = set (map p_id (TextbookPages s))"
    using ids by simp_all
  have pos: "\<forall>d\<in>set (TextbookDocuments ?s'). 0 < d_id d"
    using assms by (auto simp: consistent_iff)
  show ?thesis
    unfolding consistent_iff [of ?s'] references_same_keys [OF same] ids
    using assms(1) pos by (simp add: consistent_iff)
qed

lemma consistent_add_page:
  assumes "consistent s" and "page_references s row"
    and "p_id row = next_id (map p_id (TextbookPages s)) (seq_TextbookPages s)"
  shows "consistent (s\<lparr>TextbookPages := TextbookPages s @ [row], seq_TextbookPages := p_id row\<rparr>)"
proof -
  let ?s' = "s\<lparr>TextbookPages := TextbookPages s @ [row], seq_TextbookPages := p_id row\<rparr>"
  have fresh: "p_id row \<notin> set (map p_id (TextbookPages s))"
    unfolding assms(3) by (rule next_id_fresh)
  have pos: "0 < p_id row"
    unfolding assms(3) using assms(1) by (intro next_id_positive) (simp add: consistent_iff)
  have more: "set (map d_id (TextbookDocuments s)) \<subseteq> set (map d_id (TextbookDocuments ?s'))"
    "set (map p_id (TextbookPages s)) \<subseteq> set (map p_id (TextbookPages ?s'))"
    by auto
  show ?thesis
    unfolding consistent_iff [of ?s']
    using assms(1,2) fresh pos references_more_keys [OF more]
    by (auto simp: consistent_iff)
qed

lemma consistent_map_pages:
  assumes "consistent s" and "\<And>p. p_id (g p) = p_id p"
    and "\<And>p. p \<in> set (TextbookPages s) \<Longrightarrow> page_references s (g p)"
  shows "consistent (s\<lparr>TextbookPages := map g (TextbookPages s)\<rparr>)"
proof -
  let ?s' = "s\<lparr>TextbookPages := map g (TextbookPages s)\<rparr>"
  have ids: "map p_id (TextbookPages ?s') = map p_id (TextbookPages s)"
    using assms(2) by (simp add: comp_def)
  have same: "set (map d_id (TextbookDocuments ?s')) = set (map d_id (TextbookDocuments s))"
    "set (map p_id (TextbookPages ?s')) = set (map p_id (TextbookPages s))"
    using ids by simp_all
  have pos: "\<forall>p\<in>set (TextbookPages ?s'). 0 < p_id p"
    using assms(1,2) by (auto simp: consistent_iff)
  have refs: "\<forall>p\<in>set (TextbookPages ?s'). page_references s p"
    using assms(3) by auto
  show ?thesis
    unfolding consistent_iff [of ?s'] references_same_keys [OF same] ids
    using assms(1) pos refs by (simp add: consistent_iff)
qed

lemma consistent_remove_pages:
  assumes "consistent s"
    and "\<not> list_ex (page_referenced s) (filter P (TextbookPages s))"
  shows "consistent (s\<lparr>TextbookPages := filter (\<lambda>p. \<not> P p) (TextbookPages s)\<rparr>)"
proof -
  let ?s' = "s\<lparr>TextbookPages := filter (\<lambda>p. \<not> P p) (TextbookPages s)\<rparr>"
  have unreferenced: "\<not> page_referenced s p" if "p \<in> set (TextbookPages s)" and "P p" for p
    using assms(2) that by (auto simp: list_ex_iff)
  have kept: "i \<in> set (map p_id (TextbookPages ?s'))"
    if "i \<in> set (map p_id (TextbookPages s))"
      and "(\<exists>h\<in>set (TextbookHighlights s). h_pageId h = Some i) \<or>
           (\<exists>j\<in>set (ScanJobs s). j_pageId j = Some i)" for i
  proof -
    from that(1) obtain p where p: "p \<in> set (TextbookPages s)" "p_id p = i" by auto
    with that(2) have "page_referenced s p"
      by (auto simp: page_referenced_def list_ex_iff)
    with unreferenced p have "\<not> P p" by blast
    with p show ?thesis by force
  qed
  have h: "highlight_references ?s' h" if "h \<in> set (TextbookHighlights s)" for h
  proof -
    from that assms(1) have "highlight_references s h" by (simp add: consistent_iff)
    then show ?thesis
      using kept that
      by (cases "h_pageId h") (auto simp: highlight_references_def refers_to_def)
  qed
  have j: "job_references ?s' j" if "j \<in> set (ScanJobs s)" for j
  proof -
    from that assms(1) have "job_references s j" by (simp add: consistent_iff)
    then show ?thesis
      using kept that
      by (cases "j_pageId j") (auto simp: job_references_def refers_to_def)
  qed
  have pg: "page_references ?s' p" if "p \<in> set (TextbookPages s)" for p
    using that assms(1) by (simp add: consistent_iff page_references_def)
  show ?thesis
    unfolding consistent_iff [of ?s']
    using assms(1) h j pg by (auto simp: consistent_iff distinct_map_filter)
qed

lemma consistent_add_highlight:
  assumes "consistent s" and "highlight_references s row"
    and "h_id row = next_id (map h_id (TextbookHighlights s)) (seq_TextbookHighlights s)"
  shows "consistent (s\<lparr>TextbookHighlights := TextbookHighlights s @ [row],
                        seq_TextbookHighlights := h_id row\<rparr>)"
proof -
  let ?s' = "s\<lparr>TextbookHighlights := TextbookHighlights s @ [row],
               seq_TextbookHighlights := h_id row\<rparr>"
  have fresh: "h_id row \<notin> set (map h_id (TextbookHighlights s))"
    unfolding assms(3) by (rule next_id_fresh)
  have same: "set (map d_id (TextbookDocuments ?s')) = set (map d_id (TextbookDocuments s))"
    "set (map p_id (TextbookPages ?s')) = set (map p_id (TextbookPages s))"
    by simp_all
  show ?thesis
    unfolding consistent_iff [of ?s'] references_same_keys [OF same]
    using assms(1,2) fresh by (auto simp: consistent_iff)
qed

lemma consistent_map_highlights:
  assumes "consistent s" and "\<And>h. h_id (g h) = h_id h"
    and "\<And>h. h \<in> set (TextbookHighlights s) \<Longrightarrow> highlight_references s (g h)"
  shows "consistent (s\<lparr>TextbookHighlights := map g (TextbookHighlights s)\<rparr>)"
proof -
  let ?s' = "s\<lparr>TextbookHighlights := map g (TextbookHighlights s)\<rparr>"
  have ids: "map h_id (TextbookHighlights ?s') = map h_id (TextbookHighlights s)"
    using assms(2) by (simp add: comp_def)
  have same: "set (map d_id (TextbookDocuments ?s')) = set (map d_id (TextbookDocuments s))"
    "set (map p_id (TextbookPages ?s')) = set (map p_id (TextbookPages s))"
    by simp_all
  have refs: "\<forall>h\<in>set (TextbookHighlights ?s'). highlight_references s h"
    using assms(3) by auto
  show ?thesis
    unfolding consistent_iff [of ?s'] references_same_keys [OF same] ids
    using assms(1) refs by (simp add: consistent_iff)
qed

lemma consistent_remove_highlights:
  assumes "consistent s"
  shows "consistent (s\<lparr>TextbookHighlights := filter Q (TextbookHighlights s)\<rparr>)"
proof -
  let ?s' = "s\<lparr>TextbookHighlights := filter Q (TextbookHighlights s)\<rparr>"
  have same: "set (map d_id (TextbookDocuments ?s')) = set (map d_id (TextbookDocuments s))"
    "set (map p_id (TextbookPages ?s')) = set (map p_id (TextbookPages s))"
    by simp_all
  show ?thesis
    unfolding consistent_iff [of ?s'] references_same_keys [OF same]
    using assms by (auto simp: consistent_iff distinct_map_filter)
qed

lemma consistent_add_job:
  assumes "consistent s" and "job_references s row"
    and "j_id row = next_id (map j_id (ScanJobs s)) (seq_ScanJobs s)"
  shows "consistent (s\<lparr>ScanJobs := ScanJobs s @ [row], seq_ScanJobs := j_id row\<rparr>)"
proof -
  let ?s' = "s\<lparr>ScanJobs := ScanJobs s @ [row], seq_ScanJobs := j_id row\<rparr>"
  have fresh: "j_id row \<notin> set (map j_id (ScanJobs s))"
    unfolding assms(3) by (rule next_id_fresh)
  have same: "set (map d_id (TextbookDocuments ?s')) = set (map d_id (TextbookDocuments s))"
    "set (map p_id (TextbookPages ?s')) = set (map p_id (TextbookPages s))"
    by simp_all
  show ?thesis
    unfolding consistent_iff [of ?s'] references_same_keys [OF same]
    using assms(1,2) fresh by (auto simp: consistent_iff)
qed

lemma insert_TextbookDocuments_consistent:
  "consistent s \<Longrightarrow> consistent (snd (insert_TextbookDocuments now v s))"
  using consistent_add_document
    [of s "document_row now (next_id (map d_id (TextbookDocuments s)) (seq_TextbookDocuments s)) v"]
  by (simp add: insert_TextbookDocuments_def Let_def document_row_def)

lemma insert_TextbookPages_consistent:
  assumes "consistent s" and "insert_TextbookPages now v s = Some (rows, s')"
  shows "consistent s'"
  using assms consistent_add_page
    [of s "page_row now (next_id (map p_id (TextbookPages s)) (seq_TextbookPages s)) v"]
  by (auto simp: insert_TextbookPages_def Let_def page_row_def split: if_splits)

lemma insert_TextbookHighlights_consistent:
  assumes "consistent s" and "insert_TextbookHighlights now v s = Some (rows, s')"
  shows "consistent s'"
  using assms consistent_add_highlight
    [of s "highlight_row now
             (next_id (map h_id (TextbookHighlights s)) (seq_TextbookHighlights s)) v"]
  by (auto simp: insert_TextbookHighlights_def Let_def highlight_row_def split: if_splits)

lemma insert_ScanJobs_consistent:
  assumes "consistent s" and "insert_ScanJobs now v s = Some (rows, s')"
  shows "consistent s'"
  using assms consistent_add_job
    [of s "job_row now (next_id (map j_id (ScanJobs s)) (seq_ScanJobs s)) v"]
  by (auto simp: insert_ScanJobs_def Let_def job_row_def split: if_splits)

lemma update_TextbookPages_consistent:
  assumes "consistent s" and "update_TextbookPages P (set_TextbookPages v) s = Some (rows, s')"
  shows "consistent s'"
proof -
  let ?g = "\<lambda>r. if P r then set_TextbookPages v r else r"
  from assms(2) have checked: "list_all (page_references s) (map (set_TextbookPages v)
      (filter P (TextbookPages s)))"
    and s': "s' = s\<lparr>TextbookPages := map ?g (TextbookPages s)\<rparr>"
    by (auto simp: update_TextbookPages_def db_update_def split: if_splits)
  have "consistent (s\<lparr>TextbookPages := map ?g (TextbookPages s)\<rparr>)"
    using assms(1)
  proof (rule consistent_map_pages)
    show "p_id (?g p) = p_id p" for p
      by (simp add: set_TextbookPages_def)
    show "page_references s (?g p)" if "p \<in> set (TextbookPages s)" for p
      using that checked assms(1) by (auto simp: list_all_iff consistent_iff)
  qed
  then show ?thesis by (simp add: s')
qed

lemma update_TextbookHighlights_consistent:
  assumes "consistent s"
    and "update_TextbookHighlights P (set_TextbookHighlights v) s = Some (rows, s')"
  shows "consistent s'"
proof -
  let ?g = "\<lambda>r. if P r then set_TextbookHighlights v r else r"
  from assms(2) have checked: "list_all (highlight_references s)
      (map (set_TextbookHighlights v) (filter P (TextbookHighlights s)))"
    and s': "s' = s\<lparr>TextbookHighlights := map ?g (TextbookHighlights s)\<rparr>"
    by (auto simp: update_TextbookHighlights_def db_update_def split: if_splits)
  have "consistent (s\<lparr>TextbookHighlights := map ?g (TextbookHighlights s)\<rparr>)"
    using assms(1)
  proof (rule consistent_map_highlights)
    show "h_id (?g h) = h_id h" for h
      by (simp add: set_TextbookHighlights_def)
    show "highlight_references s (?g h)" if "h \<in> set (TextbookHighlights s)" for h
      using that checked assms(1) by (auto simp: list_all_iff consistent_iff)
  qed
  then show ?thesis by (simp add: s')
qed

lemma delete_TextbookPages_consistent:
  assumes "consistent s" and "delete_TextbookPages P s = Some (rows, s')"
  shows "consistent s'"
  using assms consistent_remove_pages [of s P]
  by (auto simp: delete_TextbookPages_def db_delete_def split: if_splits)

lemma write_entry_id: "d_id (fold write_entry updateData d) = d_id d"
proof (induction updateData arbitrary: d)
  case Nil
  then show ?case by simp
next
  case (Cons e es)
  have "d_id (write_entry e d) = d_id d" by (cases e) simp_all
  with Cons show ?case by simp
qed

lemma createDocument_consistent:
  "consistent s \<Longrightarrow> consistent (snd (createDocument now inp ctx s))"
  using insert_TextbookDocuments_consistent
  by (auto simp: createDocument_def split: sum.splits prod.splits) (metis snd_conv)

lemma updateDocument_consistent:
  assumes "consistent s"
  shows "consistent (snd (updateDocument now inp ctx s))"
proof -
  have "consistent (s\<lparr>TextbookDocuments := map (\<lambda>r. if P r then set_TextbookDocuments e now r else r)
      (TextbookDocuments s)\<rparr>)" for P e
    using assms by (rule consistent_map_documents)
      (simp add: set_TextbookDocuments_def write_entry_id)
  with assms show ?thesis
    by (auto simp: updateDocument_def Let_def db_update_def split: sum.splits option.splits)
qed

lemma listDocuments_consistent:
  "consistent s \<Longrightarrow> consistent (snd (listDocuments ctx s))"
  by (auto simp: listDocuments_def split: sum.splits)

lemma getDocumentWithPages_consistent:
  "consistent s \<Longrightarrow> consistent (snd (getDocumentWithPages i ctx s))"
  by (auto simp: getDocumentWithPages_def split: sum.splits option.splits)

lemma savePage_consistent:
  "consistent s \<Longrightarrow> consistent (snd (savePage now inp ctx s))"
  by (auto simp: savePage_def Let_def split: sum.splits option.splits
      dest: insert_TextbookPages_consistent update_TextbookPages_consistent)

lemma deletePage_consistent:
  "consistent s \<Longrightarrow> consistent (snd (deletePage inp ctx s))"
  by (auto simp: deletePage_def split: sum.splits option.splits
      dest: delete_TextbookPages_consistent)

lemma saveHighlight_consistent:
  "consistent s \<Longrightarrow> consistent (snd (saveHighlight now inp ctx s))"
  by (auto simp: saveHighlight_def Let_def split: sum.splits option.splits
      dest: insert_TextbookHighlights_consistent update_TextbookHighlights_consistent)

lemma deleteHighlight_consistent:
  "consistent s \<Longrightarrow> consistent (snd (deleteHighlight inp ctx s))"
  using consistent_remove_highlights
  by (auto simp: deleteHighlight_def db_delete_def split: sum.splits option.splits)

lemma createScanJob_consistent:
  "consistent s \<Longrightarrow> consistent (snd (createScanJob now inp ctx s))"
  by (auto simp: createScanJob_def split: sum.splits option.splits
      dest: insert_ScanJobs_consistent)

lemma listScanJobs_consistent:
  "consistent s \<Longrightarrow> consistent (snd (listScanJobs inp ctx s))"
  by (auto simp: listScanJobs_def Let_def split: sum.splits)

lemma perform_consistent:
  "consistent s \<Longrightarrow> consistent (perform now ctx r s)"
  by (cases r)
     (simp_all add: createDocument_consistent updateDocument_consistent
       listDocuments_consistent getDocumentWithPages_consistent savePage_consistent
       deletePage_consistent saveHighlight_consistent deleteHighlight_consistent
       createScanJob_consistent listScanJobs_consistent)

lemma run_consistent: "consistent s \<Longrightarrow> consistent (run calls s)"
  by (induction calls arbitrary: s) (auto simp: perform_consistent)

lemma empty_store_consistent: "consistent empty_store"
  by (simp add: consistent_iff empty_store_def)

section \<open>The highlight invariant\<close>

lemma highlight_linked_iff:
  "highlight_linked pages h \<longleftrightarrow>
     (\<forall>i. h_pageId h = Some i \<longrightarrow> (i, h_documentId h) \<in> (\<lambda>p. (p_id p, p_documentId p)) ` set pages)"
  by (cases "h_pageId h") (auto simp: highlight_linked_def list_ex_iff)

lemma highlight_linked_mono:
  assumes "highlight_linked pages h"
    and "(\<lambda>p. (p_id p, p_documentId p)) ` set pages \<subseteq> (\<lambda>p. (p_id p, p_documentId p)) ` set pages'"
  shows "highlight_linked pages' h"
  using assms unfolding highlight_linked_iff by blast

lemma highlights_linked_iff:
  "highlights_linked s \<longleftrightarrow> (\<forall>h\<in>set (TextbookHighlights s). highlight_linked (TextbookPages s) h)"
  by (simp add: highlights_linked_def list_all_iff)

lemma first_limit_select_Suc:
  "first (limit (Suc 0) (db_select P rows)) = List.find P rows"
  using first_limit_select [of P rows] by simp

lemma linked_frame:
  assumes "highlights_linked s" and "TextbookPages s' = TextbookPages s"
    and "set (TextbookHighlights s') \<subseteq> set (TextbookHighlights s)"
  shows "highlights_linked s'"
  using assms unfolding highlights_linked_iff by auto

lemma linked_new_highlights:
  assumes "highlights_linked s" and "TextbookPages s' = TextbookPages s"
    and "\<And>h. h \<in> set (TextbookHighlights s') \<Longrightarrow>
           h \<in> set (TextbookHighlights s) \<or> highlight_linked (TextbookPages s) h"
  shows "highlights_linked s'"
  using assms unfolding highlights_linked_iff by auto

lemma linked_new_pages:
  assumes "highlights_linked s" and "TextbookHighlights s' = TextbookHighlights s"
    and "\<And>h. h \<in> set (TextbookHighlights s) \<Longrightarrow> highlight_linked (TextbookPages s) h \<Longrightarrow>
           highlight_linked (TextbookPages s') h"
  shows "highlights_linked s'"
  using assms unfolding highlights_linked_iff by auto

lemma createDocument_linked:
  "highlights_linked s \<Longrightarrow> highlights_linked (snd (createDocument now inp ctx s))"
  by (erule linked_frame)
     (auto simp: createDocument_def insert_TextbookDocuments_def Let_def split: sum.splits)

lemma updateDocument_linked:
  "highlights_linked s \<Longrightarrow> highlights_linked (snd (updateDocument now inp ctx s))"
  by (erule linked_frame)
     (auto simp: updateDocument_def Let_def db_update_def split: sum.splits option.splits)

lemma listDocuments_linked:
  "highlights_linked s \<Longrightarrow> highlights_linked (snd (listDocuments ctx s))"
  by (erule linked_frame) (auto simp: listDocuments_def split: sum.splits)

lemma getDocumentWithPages_linked:
  "highlights_linked s \<Longrightarrow> highlights_linked (snd (getDocumentWithPages i ctx s))"
  by (erule linked_frame)
     (auto simp: getDocumentWithPages_def split: sum.splits option.splits)

lemma createScanJob_linked:
  "highlights_linked s \<Longrightarrow> highlights_linked (snd (createScanJob now inp ctx s))"
  by (erule linked_frame)
     (auto simp: createScanJob_def insert_ScanJobs_def Let_def
       split: sum.splits option.splits if_splits)

lemma listScanJobs_linked:
  "highlights_linked s \<Longrightarrow> highlights_linked (snd (listScanJobs inp ctx s))"
  by (erule linked_frame) (auto simp: listScanJobs_def Let_def split: sum.splits)

lemma deleteHighlight_linked:
  "highlights_linked s \<Longrightarrow> highlights_linked (snd (deleteHighlight inp ctx s))"
  by (erule linked_frame)
     (auto simp: deleteHighlight_def db_delete_def split: sum.splits option.splits)

lemma insert_TextbookPages_linked:
  assumes "highlights_linked s" and "insert_TextbookPages now v s = Some (rows, s')"
  shows "highlights_linked s'"
  using assms(1)
proof (rule linked_new_pages)
  show "TextbookHighlights s' = TextbookHighlights s"
    using assms(2) by (auto simp: insert_TextbookPages_def Let_def split: if_splits)
  show "highlight_linked (TextbookPages s') h" if "highlight_linked (TextbookPages s) h" for h
    using that
  proof (rule highlight_linked_mono)
    show "(\<lambda>p. (p_id p, p_documentId p)) ` set (TextbookPages s)
            \<subseteq> (\<lambda>p. (p_id p, p_documentId p)) ` set (TextbookPages s')"
      using assms(2) by (auto simp: insert_TextbookPages_def Let_def split: if_splits)
  qed
qed

lemma delete_TextbookPages_linked:
  assumes "highlights_linked s" and "delete_TextbookPages P s = Some (rows, s')"
  shows "highlights_linked s'"
  using assms(1)
proof (rule linked_new_pages)
  from assms(2) have s': "s' = s\<lparr>TextbookPages := filter (\<lambda>p. \<not> P p) (TextbookPages s)\<rparr>"
    and unreferenced: "\<not> list_ex (page_referenced s) (filter P (TextbookPages s))"
    by (auto simp: delete_TextbookPages_def db_delete_def split: if_splits)
  show "TextbookHighlights s' = TextbookHighlights s"
    by (simp add: s')
  show "highlight_linked (TextbookPages s') h"
    if h: "h \<in> set (TextbookHighlights s)" and linked: "highlight_linked (TextbookPages s) h" for h
  proof (cases "h_pageId h")
    case None
    then show ?thesis by (simp add: highlight_linked_def)
  next
    case (Some i)
    with linked obtain p where p: "p \<in> set (TextbookPages s)" "p_id p = i"
      "p_documentId p = h_documentId h"
      by (auto simp: highlight_linked_def list_ex_iff)
    with h Some have "page_referenced s p"
      by (auto simp: page_referenced_def list_ex_iff)
    with unreferenced p(1) have "\<not> P p"
      by (auto simp: list_ex_iff)
    with p Some show ?thesis
      by (auto simp: s' highlight_linked_def list_ex_iff)
  qed
qed

lemma update_TextbookPages_linked:
  assumes "highlights_linked s" and "distinct (map p_id (TextbookPages s))"
    and "List.find (\<lambda>p. Some (p_id p) = k) (TextbookPages s) = Some existing"
    and "p_documentId existing = pv_documentId v"
    and "update_TextbookPages (\<lambda>p. Some (p_id p) = k) (set_TextbookPages v) s = Some (rows, s')"
  shows "highlights_linked s'"
  using assms(1)
proof (rule linked_new_pages)
  let ?g = "\<lambda>p. if Some (p_id p) = k then set_TextbookPages v p else p"
  from assms(5) have s': "s' = s\<lparr>TextbookPages := map ?g (TextbookPages s)\<rparr>"
    by (auto simp: update_TextbookPages_def db_update_def split: if_splits)
  show "TextbookHighlights s' = TextbookHighlights s"
    by (simp add: s')
  have k: "k = Some (p_id existing)" and mem: "existing \<in> set (TextbookPages s)"
    using assms(3) by (auto simp: find_Some_iff)
  have same_id: "p_id (?g p) = p_id p" for p
    by (simp add: set_TextbookPages_def)
  have same_doc: "p_documentId (?g p) = p_documentId p" if "p \<in> set (TextbookPages s)" for p
  proof (cases "Some (p_id p) = k")
    case True
    with k have "p_id p = p_id existing" by simp
    with assms(2) that mem have "p = existing"
      by (auto simp: distinct_map inj_on_def)
    with True assms(4) show ?thesis by (simp add: set_TextbookPages_def)
  next
    case False
    then show ?thesis by simp
  qed
  have pairs: "(\<lambda>p. (p_id p, p_documentId p)) ` set (TextbookPages s)
        \<subseteq> (\<lambda>p. (p_id p, p_documentId p)) ` set (TextbookPages s')"
  proof
    fix x assume "x \<in> (\<lambda>p. (p_id p, p_documentId p)) ` set (TextbookPages s)"
    then obtain p where p: "p \<in> set (TextbookPages s)" and x: "x = (p_id p, p_documentId p)"
      by blast
    have "x = (p_id (?g p), p_documentId (?g p))"
      unfolding x using same_id [of p] same_doc [OF p] by simp
    moreover have "?g p \<in> set (TextbookPages s')"
      using p by (simp add: s')
    ultimately show "x \<in> (\<lambda>p. (p_id p, p_documentId p)) ` set (TextbookPages s')"
      by blast
  qed
  show "highlight_linked (TextbookPages s') h" if "highlight_linked (TextbookPages s) h" for h
    using that pairs by (rule highlight_linked_mono)
qed

lemma savePage_linked:
  assumes "consistent s" and "highlights_linked s"
  shows "highlights_linked (snd (savePage now inp ctx s))"
proof (cases "requireUser ctx")
  case (Inl e)
  with assms show ?thesis by (simp add: savePage_def)
next
  case (Inr u)
  show ?thesis
  proof (cases "owned_document u (sp_documentId inp) s")
    case None
    with Inr assms show ?thesis by (simp add: savePage_def)
  next
    case (Some document) note owned = this
    let ?base = "\<lparr>pv_documentId = sp_documentId inp,
                       pv_pageNumber = Some (or_default (sp_pageNumber inp) 1),
                       pv_imageUrl = sp_imageUrl inp, pv_ocrText = sp_ocrText inp,
                       pv_ocrBlocks = sp_ocrBlocks inp,
                       pv_createdAt = Some now, pv_updatedAt = Some now\<rparr>"
    show ?thesis
    proof (cases "truthy (sp_id inp)")
      case False
      show ?thesis
      proof (cases "insert_TextbookPages now ?base s")
        case None
        with Inr owned False assms show ?thesis by (simp add: savePage_def Let_def)
      next
        case (Some result)
        obtain rows s' where result: "result = (rows, s')" by (cases result)
        with Some assms(2) have "highlights_linked s'"
          by (auto dest: insert_TextbookPages_linked)
        with Inr owned False Some result show ?thesis by (simp add: savePage_def Let_def)
      qed
    next
      case True
      show ?thesis
      proof (cases "List.find (\<lambda>p. Some (p_id p) = sp_id inp) (TextbookPages s)")
        case None
        with Inr owned True assms show ?thesis
          by (simp add: savePage_def Let_def first_limit_select_Suc)
      next
        case (Some existing) note found = this
        show ?thesis
        proof (cases "p_documentId existing = sp_documentId inp")
          case False
          with Inr owned True found assms show ?thesis
            by (simp add: savePage_def Let_def first_limit_select_Suc)
        next
          case same: True
          show ?thesis
          proof (cases "update_TextbookPages (\<lambda>p. Some (p_id p) = sp_id inp)
                          (set_TextbookPages ?base) s")
            case None
            with Inr owned True found same assms show ?thesis
              by (simp add: savePage_def Let_def first_limit_select_Suc)
          next
            case (Some result)
            obtain rows s' where result: "result = (rows, s')" by (cases result)
            have "distinct (map p_id (TextbookPages s))"
              using assms(1) by (simp add: consistent_def primary_keys_def)
            with assms(2) have "highlights_linked s'"
              using found
            proof (rule update_TextbookPages_linked)
              show "p_documentId existing = pv_documentId ?base" using same by simp
              show "update_TextbookPages (\<lambda>p. Some (p_id p) = sp_id inp)
                      (set_TextbookPages ?base) s = Some (rows, s')"
                using Some result by simp
            qed
            with Inr owned True found same Some result show ?thesis
              by (simp add: savePage_def Let_def first_limit_select_Suc)
          qed
        qed
      qed
    qed
  qed
qed

lemma deletePage_linked:
  "highlights_linked s \<Longrightarrow> highlights_linked (snd (deletePage inp ctx s))"
  by (auto simp: deletePage_def split: sum.splits option.splits
      dest: delete_TextbookPages_linked)

lemma checked_page_linked:
  assumes "\<not> (truthy (sh_pageId inp) \<and>
              List.find (\<lambda>p. Some (p_id p) = sh_pageId inp \<and> p_documentId p = sh_documentId inp)
                pages = None)"
    and "sh_pageId inp \<noteq> Some 0"
    and "h_pageId h = sh_pageId inp" and "h_documentId h = sh_documentId inp"
  shows "highlight_linked pages h"
proof (cases "sh_pageId inp")
  case None
  with assms(3) show ?thesis by (simp add: highlight_linked_def)
next
  case (Some i)
  with assms(2) have "truthy (sh_pageId inp)" by (simp add: truthy_def)
  with assms(1) obtain p where
    "List.find (\<lambda>p. Some (p_id p) = sh_pageId inp \<and> p_documentId p = sh_documentId inp) pages
       = Some p"
    by auto
  then have "p \<in> set pages" and "p_id p = i" and "p_documentId p = sh_documentId inp"
    using Some by (auto simp: find_Some_iff)
  with Some assms(3,4) show ?thesis
    by (auto simp: highlight_linked_def list_ex_iff)
qed

lemma no_page_zero:
  assumes "consistent s" and "refers_to (map p_id (TextbookPages s)) v"
  shows "v \<noteq> Some 0"
proof
  assume "v = Some 0"
  with assms(2) obtain p where "p \<in> set (TextbookPages s)" and "p_id p = 0"
    by (auto simp: refers_to_def)
  moreover have "\<forall>p\<in>set (TextbookPages s). 0 < p_id p"
    using assms(1) by (simp add: consistent_iff)
  ultimately show False by force
qed

lemma saveHighlight_linked:
  assumes "consistent s" and "highlights_linked s"
  shows "highlights_linked (snd (saveHighlight now inp ctx s))"
proof (cases "requireUser ctx")
  case (Inl e)
  with assms show ?thesis by (simp add: saveHighlight_def)
next
  case (Inr u)
  show ?thesis
  proof (cases "owned_document u (sh_documentId inp) s")
    case None
    with Inr assms show ?thesis by (simp add: saveHighlight_def)
  next
    case (Some document) note owned = this
    let ?base = "\<lparr>hv_documentId = sh_documentId inp, hv_pageId = sh_pageId inp,
                   hv_highlightType = Some (or_default (sh_highlightType inp) Key_point),
                   hv_content = sh_content inp, hv_meta = sh_meta inp,
                   hv_createdAt = Some now\<rparr>"
    let ?missing = "truthy (sh_pageId inp) \<and>
        List.find (\<lambda>p. Some (p_id p) = sh_pageId inp \<and> p_documentId p = sh_documentId inp)
          (TextbookPages s) = None"
    show ?thesis
    proof (cases ?missing)
      case True
      with Inr owned assms show ?thesis
        by (simp add: saveHighlight_def first_limit_select_Suc)
    next
      case checked: False
      show ?thesis
      proof (cases "truthy (sh_id inp)")
        case False
        show ?thesis
        proof (cases "insert_TextbookHighlights now ?base s")
          case None
          with Inr owned checked False assms show ?thesis
            by (simp add: saveHighlight_def first_limit_select_Suc Let_def)
        next
          case (Some result)
          obtain rows s' where result: "result = (rows, s')" by (cases result)
          let ?row = "highlight_row now
              (next_id (map h_id (TextbookHighlights s)) (seq_TextbookHighlights s)) ?base"
          from Some result have refs: "highlight_references s ?row"
            and s': "s' = s\<lparr>TextbookHighlights := TextbookHighlights s @ [?row],
                seq_TextbookHighlights :=
                  next_id (map h_id (TextbookHighlights s)) (seq_TextbookHighlights s)\<rparr>"
            by (auto simp: insert_TextbookHighlights_def Let_def split: if_splits)
          from refs have "refers_to (map p_id (TextbookPages s)) (sh_pageId inp)"
            by (simp add: highlight_references_def highlight_row_def)
          with assms(1) have "sh_pageId inp \<noteq> Some 0"
            by (rule no_page_zero)
          with checked have row_linked: "highlight_linked (TextbookPages s) ?row"
            by (rule checked_page_linked) (simp_all add: highlight_row_def)
          have "highlights_linked s'"
            using assms(2)
          proof (rule linked_new_highlights)
            show "TextbookPages s' = TextbookPages s" by (simp add: s')
          next
            fix h assume "h \<in> set (TextbookHighlights s')"
            then have "h \<in> set (TextbookHighlights s) \<or> h = ?row"
              by (auto simp: s')
            with row_linked
            show "h \<in> set (TextbookHighlights s) \<or> highlight_linked (TextbookPages s) h"
              by blast
          qed
          with Inr owned checked False Some result assms(2) show ?thesis
            by (simp add: saveHighlight_def first_limit_select_Suc Let_def)
        qed
      next
        case True
        show ?thesis
        proof (cases "List.find (\<lambda>h. Some (h_id h) = sh_id inp) (TextbookHighlights s)")
          case None
          with Inr owned checked True assms show ?thesis
            by (simp add: saveHighlight_def first_limit_select_Suc Let_def)
        next
          case (Some existing) note found = this
          show ?thesis
          proof (cases "h_documentId existing = sh_documentId inp")
            case False
            with Inr owned checked True found assms show ?thesis
              by (simp add: saveHighlight_def first_limit_select_Suc Let_def)
          next
            case same: True
            let ?P = "\<lambda>h. Some (h_id h) = sh_id inp"
            let ?g = "\<lambda>h. if ?P h then set_TextbookHighlights ?base h else h"
            show ?thesis
            proof (cases "update_TextbookHighlights ?P (set_TextbookHighlights ?base) s")
              case None
              with Inr owned checked True found same assms show ?thesis
                by (simp add: saveHighlight_def first_limit_select_Suc Let_def)
            next
              case (Some result)
              obtain rows s' where result: "result = (rows, s')" by (cases result)
              from Some result have refs: "list_all (highlight_references s)
                  (map (set_TextbookHighlights ?base) (filter ?P (TextbookHighlights s)))"
                and s': "s' = s\<lparr>TextbookHighlights := map ?g (TextbookHighlights s)\<rparr>"
                by (auto simp: update_TextbookHighlights_def db_update_def split: if_splits)
              have ids: "distinct (map h_id (TextbookHighlights s))"
                using assms(1) by (simp add: consistent_def primary_keys_def)
              have sid: "sh_id inp = Some (h_id existing)"
                and mem: "existing \<in> set (TextbookHighlights s)"
                using found by (auto simp: find_Some_iff)
              have "highlights_linked s'"
                using assms(2)
              proof (rule linked_new_highlights)
                show "TextbookPages s' = TextbookPages s" by (simp add: s')
              next
                fix h assume "h \<in> set (TextbookHighlights s')"
                then obtain h0 where h0: "h0 \<in> set (TextbookHighlights s)" and h: "h = ?g h0"
                  by (auto simp: s')
                show "h \<in> set (TextbookHighlights s) \<or> highlight_linked (TextbookPages s) h"
                proof (cases "?P h0")
                  case False
                  with h h0 show ?thesis by simp
                next
                  case True
                  with sid have "h_id h0 = h_id existing" by simp
                  with ids h0 mem have h0_existing: "h0 = existing"
                    by (auto simp: distinct_map inj_on_def)
                  have h_set: "h = set_TextbookHighlights ?base h0"
                    using True h by simp
                  have "highlight_references s h"
                    using refs h0 True h_set by (auto simp: list_all_iff)
                  then have page_ref: "refers_to (map p_id (TextbookPages s)) (h_pageId h)"
                    by (simp add: highlight_references_def)
                  have "highlight_linked (TextbookPages s) h"
                  proof (cases "sh_pageId inp")
                    case None
                    then have "h_pageId h = h_pageId h0" and "h_documentId h = h_documentId h0"
                      using h_set same h0_existing
                      by (simp_all add: set_TextbookHighlights_def keep_or_overwrite_def)
                    moreover have "highlight_linked (TextbookPages s) h0"
                      using assms(2) h0 by (simp add: highlights_linked_iff)
                    ultimately show ?thesis
                      by (simp add: highlight_linked_iff)
                  next
                    case (Some i)
                    then have pid: "h_pageId h = sh_pageId inp"
                      using h_set by (simp add: set_TextbookHighlights_def keep_or_overwrite_def)
                    with page_ref assms(1) have "sh_pageId inp \<noteq> Some 0"
                      by (auto dest: no_page_zero)
                    with checked show ?thesis
                      by (rule checked_page_linked)
                         (use pid h_set in \<open>simp_all add: set_TextbookHighlights_def\<close>)
                  qed
                  then show ?thesis ..
                qed
              qed
              with Inr owned checked True found same Some result assms(2) show ?thesis
                by (simp add: saveHighlight_def first_limit_select_Suc Let_def)
            qed
          qed
        qed
      qed
    qed
  qed
qed

lemma perform_linked:
  assumes "consistent s" and "highlights_linked s"
  shows "highlights_linked (perform now ctx r s)"
  using assms
  by (cases r)
     (simp_all add: createDocument_linked updateDocument_linked listDocuments_linked
       getDocumentWithPages_linked savePage_linked deletePage_linked saveHighlight_linked
       deleteHighlight_linked createScanJob_linked listScanJobs_linked)

lemma run_linked:
  assumes "consistent s" and "highlights_linked s"
  shows "consistent (run calls s) \<and> highlights_linked (run calls s)"
  using assms
proof (induction calls arbitrary: s)
  case Nil
  then show ?case by simp
next
  case (Cons call calls)
  obtain now ctx r where call: "call = (now, ctx, r)"
    by (cases call) auto
  have "consistent (perform now ctx r s)"
    using Cons.prems(1) by (rule perform_consistent)
  moreover have "highlights_linked (perform now ctx r s)"
    using Cons.prems by (rule perform_linked)
  ultimately have "consistent (run calls (perform now ctx r s)) \<and>
             highlights_linked (run calls (perform now ctx r s))"
    by (rule Cons.IH)
  with call show ?case by simp
qed

lemma empty_store_linked: "highlights_linked empty_store"
  by (simp add: highlights_linked_def empty_store_def)

lemma run_append: "run (calls @ later) s = run later (run calls s)"
  by (induction calls arbitrary: s) auto

lemmas handler_defs = createDocument_def savePage_def saveHighlight_def deletePage_def
  insert_TextbookDocuments_def insert_TextbookPages_def insert_TextbookHighlights_def
  delete_TextbookPages_def page_references_def highlight_references_def refers_to_def
  page_referenced_def document_row_def page_row_def highlight_row_def next_id_def
  owned_document_def truthy_def Let_def

lemma scenario_store:
  "run scenario empty_store =
     \<lparr>TextbookDocuments =
        [\<lparr>d_id = 1, d_ownerId = ''alice'', d_title = ''Chapter 2'', d_description = None,
          d_subject = None, d_gradeLevel = None, d_board = None, d_sourceType = Image_set,
          d_sourceMeta = None, d_createdAt = 1, d_updatedAt = 1\<rparr>],
      TextbookPages =
        [\<lparr>p_id = 1, p_documentId = 1, p_pageNumber = 1, p_imageUrl = None,
          p_ocrText = Some ''Newton'', p_ocrBlocks = None, p_createdAt = 2, p_updatedAt = 2\<rparr>],
      TextbookHighlights =
        [\<lparr>h_id = 1, h_documentId = 1, h_pageId = Some 1, h_highlightType = Formula,
          h_content = ''F=ma'', h_meta = None, h_createdAt = 3\<rparr>],
      ScanJobs = [],
      seq_TextbookDocuments = 1, seq_TextbookPages = 1, seq_TextbookHighlights = 1,
      seq_ScanJobs = 0\<rparr>"
  by (simp add: scenario_def empty_store_def requireUser_signed_in alice_def handler_defs
      gateway_defs)

lemma scenario_delete_refused:
  "deletePage \<lparr>dp_id = 1, dp_documentId = 1\<rparr> (signed_in alice) (run scenario empty_store) =
     (Inl ConstraintFailed, run scenario empty_store)"
  unfolding scenario_store
  by (simp add: requireUser_signed_in alice_def handler_defs gateway_defs)

lemma scenario_page_zero_refused:
  "saveHighlight 5
     \<lparr>sh_id = None, sh_documentId = 1, sh_pageId = Some 0, sh_highlightType = None,
      sh_content = ''x'', sh_meta = None\<rparr> (signed_in alice) (run scenario empty_store) =
     (Inl ConstraintFailed, run scenario empty_store)"
  unfolding scenario_store
  by (simp add: requireUser_signed_in alice_def handler_defs gateway_defs)

text \<open>
  C3. The invariant that every highlight whose pageId is set references an existing page
  whose documentId equals the highlight's documentId is established by saveHighlight at
  write time and preserved by every exposed operation: on a consistent store that
  satisfies it, and so from the empty store, no sequence of operations leaves a highlight
  whose pageId is dangling or points to a page of another document. deletePage is refused
  while a highlight references the page, and so is a highlight on page 0.
\<close>

theorem highlight_links_preserved:
  "(consistent s \<and> highlights_linked s \<longrightarrow>
      consistent (run calls s) \<and> highlights_linked (run calls s)) \<and>
   highlights_linked (run calls empty_store)"
  using run_linked [of s calls] run_linked [OF empty_store_consistent empty_store_linked, of calls]
  by blast

theorem highlight_links_preserved_witness:
  "highlights_linked
     (run (scenario @ [(4, signed_in alice, DeletePage \<lparr>dp_id = 1, dp_documentId = 1\<rparr>)])
        empty_store) \<and>
   map h_pageId (TextbookHighlights
     (run (scenario @ [(4, signed_in alice, DeletePage \<lparr>dp_id = 1, dp_documentId = 1\<rparr>)])
        empty_store)) = [Some 1] \<and>
   map p_id (TextbookPages
     (run (scenario @ [(4, signed_in alice, DeletePage \<lparr>dp_id = 1, dp_documentId = 1\<rparr>)])
        empty_store)) = [1]"
proof -
  let ?calls = "scenario @ [(4, signed_in alice, DeletePage \<lparr>dp_id = 1, dp_documentId = 1\<rparr>)]"
  have "highlights_linked (run ?calls empty_store)"
    using highlight_links_preserved [of empty_store ?calls] empty_store_consistent
      empty_store_linked by blast
  moreover have "run ?calls empty_store = run scenario empty_store"
    by (simp add: run_append scenario_delete_refused)
  ultimately show ?thesis
    by (simp add: scenario_store)
qed

section \<open>listScanJobs\<close>

lemma allowedDocIds_owns:
  "i \<in> set (map d_id (db_select (\<lambda>d. d_ownerId d = u_id u) (TextbookDocuments s)))
     \<longleftrightarrow> owns_document u i s"
  by (auto simp: db_select_def owns_document_def list_ex_iff)

lemma job_passes_document:
  assumes "job_passes (set (map d_id (db_select (\<lambda>d. d_ownerId d = u_id u) (TextbookDocuments s)))) inp job"
    and "j_documentId job = Some i" and "i \<noteq> 0"
  shows "owns_document u i s"
  using assms unfolding job_passes_def Let_def allowedDocIds_owns
  by (simp add: truthy_def)

lemma job_passes_requested_document:
  assumes "job_passes A (Some f) job" and "lj_documentId f = Some i" and "i \<noteq> 0"
  shows "j_documentId job = Some i"
  using assms by (simp add: job_passes_def Let_def truthy_def)

lemma job_passes_requested_page:
  assumes "job_passes A (Some f) job" and "lj_pageId f = Some i" and "i \<noteq> 0"
  shows "j_pageId job = Some i"
  using assms by (simp add: job_passes_def Let_def truthy_def)

lemma job_passes_requested_status:
  assumes "job_passes A (Some f) job" and "lj_status f = Some st"
  shows "j_status job = st"
  using assms by (simp add: job_passes_def Let_def)

lemma job_passes_no_document:
  assumes "j_documentId job = None"
  shows "job_passes A None job"
  using assms by (simp add: job_passes_def Let_def truthy_def)

lemma no_document_zero:
  assumes "consistent s" and "job \<in> set (ScanJobs s)" and "j_documentId job = Some i"
  shows "i \<noteq> 0"
proof
  assume "i = 0"
  have "job_references s job"
    using assms(1,2) by (simp add: consistent_iff)
  with assms(3) \<open>i = 0\<close> obtain d where "d \<in> set (TextbookDocuments s)" and "d_id d = 0"
    by (auto simp: job_references_def refers_to_def)
  moreover have "\<forall>d\<in>set (TextbookDocuments s). 0 < d_id d"
    using assms(1) by (simp add: consistent_iff)
  ultimately show False by force
qed

lemma owner_unique:
  assumes "consistent s" and "owns_document u i s"
    and "d \<in> set (TextbookDocuments s)" and "d_id d = i"
  shows "d_ownerId d = u_id u"
proof -
  from assms(2) obtain d0 where d0: "d0 \<in> set (TextbookDocuments s)" "d_id d0 = i"
    "d_ownerId d0 = u_id u"
    by (auto simp: owns_document_def list_ex_iff)
  have "distinct (map d_id (TextbookDocuments s))"
    using assms(1) by (simp add: consistent_iff)
  with d0 assms(3,4) have "d = d0"
    by (auto simp: distinct_map inj_on_def)
  with d0 show ?thesis by simp
qed

lemma library_consistent: "consistent library"
  by (simp add: consistent_iff page_references_def highlight_references_def
      job_references_def refers_to_def library_def chapter2_def bobs_notes_def page1_def
      bobs_page_def formula_def ocr_job_def)

text \<open>
  C1, as stated, fails on the filters: \<open>input.documentId\<close> and \<open>input.pageId\<close> are tested by
  truthiness, so a filter of 0 is not applied. Asked for the jobs of document 0 and page 0,
  the handler returns the job of document 1 and page 1.
\<close>

theorem listScanJobs_zero_filter_counterexample:
  "listScanJobs (Some \<lparr>lj_documentId = Some 0, lj_pageId = Some 0, lj_status = None\<rparr>)
     (signed_in alice) library = (Inr [ocr_job], library) \<and>
   j_documentId ocr_job = Some 1 \<and> j_pageId ocr_job = Some 1"
  by (simp add: listScanJobs_def requireUser_signed_in Let_def db_select_def job_passes_def
      truthy_def library_def ocr_job_def chapter2_def bobs_notes_def alice_def)

text \<open>
  C1. On every store that respects the schema (unique keys, the declared references,
  positive document and page keys) and for every filter input, every job returned by
  listScanJobs has userId equal to the acting user's id, and, when its documentId is
  present, that documentId is the id of a document owned by the acting user and of no
  document of another user: listScanJobs never returns a job whose documentId belongs to
  another user, whatever the filter. Each supplied status filter, and each supplied
  documentId or pageId filter other than 0, is matched exactly by every returned job. A job
  with no documentId passes the ownership check vacuously.
\<close>

theorem listScanJobs_scoped:
  assumes "requireUser ctx = Inr u" and "consistent s"
  shows "\<exists>jobs. listScanJobs inp ctx s = (Inr jobs, s) \<and>
     (\<forall>job\<in>set jobs.
        job \<in> set (ScanJobs s) \<and> j_userId job = Some (u_id u) \<and>
        (\<forall>i. j_documentId job = Some i \<longrightarrow>
           owns_document u i s \<and>
           (\<forall>d\<in>set (TextbookDocuments s). d_id d = i \<longrightarrow> d_ownerId d = u_id u)) \<and>
        (\<forall>f i. inp = Some f \<and> lj_documentId f = Some i \<and> i \<noteq> 0 \<longrightarrow>
           j_documentId job = Some i) \<and>
        (\<forall>f i. inp = Some f \<and> lj_pageId f = Some i \<and> i \<noteq> 0 \<longrightarrow> j_pageId job = Some i) \<and>
        (\<forall>f st. inp = Some f \<and> lj_status f = Some st \<longrightarrow> j_status job = st)) \<and>
     (\<forall>job\<in>set (ScanJobs s).
        j_userId job = Some (u_id u) \<and> j_documentId job = None \<and> inp = None \<longrightarrow>
        job \<in> set jobs)"
proof -
  let ?A = "set (map d_id (db_select (\<lambda>d. d_ownerId d = u_id u) (TextbookDocuments s)))"
  let ?jobs = "filter (job_passes ?A inp)
                 (db_select (\<lambda>j. j_userId j = Some (u_id u)) (ScanJobs s))"
  have result: "listScanJobs inp ctx s = (Inr ?jobs, s)"
    using assms(1) by (simp add: listScanJobs_def Let_def)
  have returned: "job \<in> set (ScanJobs s) \<and> j_userId job = Some (u_id u) \<and> job_passes ?A inp job"
    if "job \<in> set ?jobs" for job
    using that by (simp add: db_select_def)
  have owned: "owns_document u i s \<and>
      (\<forall>d\<in>set (TextbookDocuments s). d_id d = i \<longrightarrow> d_ownerId d = u_id u)"
    if "job \<in> set ?jobs" and "j_documentId job = Some i" for job i
  proof -
    from that returned have job: "job \<in> set (ScanJobs s)" and passes: "job_passes ?A inp job"
      by blast+
    from assms(2) job that(2) have "i \<noteq> 0" by (rule no_document_zero)
    with passes that(2) have "owns_document u i s" by (rule job_passes_document)
    with assms(2) show ?thesis by (blast intro: owner_unique)
  qed
  have "\<forall>job\<in>set ?jobs.
        job \<in> set (ScanJobs s) \<and> j_userId job = Some (u_id u) \<and>
        (\<forall>i. j_documentId job = Some i \<longrightarrow>
           owns_document u i s \<and>
           (\<forall>d\<in>set (TextbookDocuments s). d_id d = i \<longrightarrow> d_ownerId d = u_id u)) \<and>
        (\<forall>f i. inp = Some f \<and> lj_documentId f = Some i \<and> i \<noteq> 0 \<longrightarrow>
           j_documentId job = Some i) \<and>
        (\<forall>f i. inp = Some f \<and> lj_pageId f = Some i \<and> i \<noteq> 0 \<longrightarrow> j_pageId job = Some i) \<and>
        (\<forall>f st. inp = Some f \<and> lj_status f = Some st \<longrightarrow> j_status job = st)"
  proof
    fix job assume member: "job \<in> set ?jobs"
    note r = returned [OF member]
    show "job \<in> set (ScanJobs s) \<and> j_userId job = Some (u_id u) \<and>
        (\<forall>i. j_documentId job = Some i \<longrightarrow>
           owns_document u i s \<and>
           (\<forall>d\<in>set (TextbookDocuments s). d_id d = i \<longrightarrow> d_ownerId d = u_id u)) \<and>
        (\<forall>f i. inp = Some f \<and> lj_documentId f = Some i \<and> i \<noteq> 0 \<longrightarrow>
           j_documentId job = Some i) \<and>
        (\<forall>f i. inp = Some f \<and> lj_pageId f = Some i \<and> i \<noteq> 0 \<longrightarrow> j_pageId job = Some i) \<and>
        (\<forall>f st. inp = Some f \<and> lj_status f = Some st \<longrightarrow> j_status job = st)"
      using r owned [OF member] job_passes_requested_document [of ?A _ job]
        job_passes_requested_page [of ?A _ job] job_passes_requested_status [of ?A _ job]
      by blast
  qed
  moreover have "\<forall>job\<in>set (ScanJobs s).
        j_userId job = Some (u_id u) \<and> j_documentId job = None \<and> inp = None \<longrightarrow>
        job \<in> set ?jobs"
    by (simp add: db_select_def job_passes_no_document)
  ultimately show ?thesis
    using result by blast
qed

theorem listScanJobs_scoped_witness:
  "listScanJobs (Some \<lparr>lj_documentId = Some 1, lj_pageId = None, lj_status = Some Pending\<rparr>)
     (signed_in alice) library = (Inr [ocr_job], library) \<and>
   j_userId ocr_job = Some (u_id alice) \<and> owns_document alice 1 library \<and>
   j_status ocr_job = Pending"
proof -
  let ?f = "\<lparr>lj_documentId = Some 1, lj_pageId = None, lj_status = Some Pending\<rparr>"
  have listed: "listScanJobs (Some ?f) (signed_in alice) library = (Inr [ocr_job], library)"
    by (simp add: listScanJobs_def requireUser_signed_in Let_def db_select_def job_passes_def
        truthy_def library_def ocr_job_def chapter2_def bobs_notes_def alice_def)
  have "requireUser (signed_in alice) = Inr alice"
    by (rule requireUser_signed_in)
  from listScanJobs_scoped [OF this library_consistent, of "Some ?f"] listed
  have "\<forall>job\<in>set [ocr_job].
        j_userId job = Some (u_id alice) \<and>
        (\<forall>i. j_documentId job = Some i \<longrightarrow> owns_document alice i library) \<and>
        (\<forall>f st. Some ?f = Some f \<and> lj_status f = Some st \<longrightarrow> j_status job = st)"
    by auto
  moreover have "j_documentId ocr_job = Some 1"
    by (simp add: ocr_job_def)
  ultimately have "j_userId ocr_job = Some (u_id alice) \<and> owns_document alice 1 library \<and>
      j_status ocr_job = Pending"
    by simp
  with listed show ?thesis by simp
qed

end
